theory Spec2Isabelle
  imports Complex_Main "HOL-Library.Log_Nat" "HOL-Library.AList"
begin

section \<open>Python values\<close>

text \<open>
  The pipeline works on parsed JSON payloads, so the model starts with the Python values a
  JSON document parses to. A Python \<^verbatim>\<open>float\<close> is an IEEE binary64 number: a finite
  one is represented by the rational it denotes, next to the two infinities and NaN
  (Python's \<^verbatim>\<open>json\<close> module parses \<^verbatim>\<open>Infinity\<close> and \<^verbatim>\<open>NaN\<close>).
  A \<^verbatim>\<open>dict\<close> is an association list in insertion order, read with
  \<^const>\<open>map_of\<close> and written with \<^const>\<open>AList.update\<close>.
  Python's \<^verbatim>\<open>None\<close> is \<open>JNull\<close>.
\<close>

datatype pyfloat = Fin rat | PInf | NInf | NaN

datatype json =
    JNull
  | JBool bool
  | JInt int
  | JFloat pyfloat
  | JStr string
  | JList "json list"
  | JDict "(string \<times> json) list"

text \<open>The exceptions the modelled code can raise; a raise is the \<open>Inl\<close> of a sum.\<close>

datatype py_error =
    PosterConfigError
  | PosterAPIError
  | TypeError
  | ValueError
  | AttributeError
  | OverflowError
  | ZeroDivisionError
  | MultipleObjectsReturned

section \<open>Python built-ins\<close>

text \<open>
  Calendar dates are year, month and day, ordered lexicographically. A stored
  \<^verbatim>\<open>datetime\<close> is the number of microseconds since the epoch.
\<close>

datatype date = Date (year: nat) (month: nat) (day: nat)

definition date_lt :: "date \<Rightarrow> date \<Rightarrow> bool" where
  "date_lt a b =
     (year a < year b \<or> (year a = year b \<and> (month a < month b \<or> (month a = month b \<and> day a < day b))))"

text \<open>
  What the model takes from the Python runtime and the Django configuration instead of
  defining it: the parsers behind \<^verbatim>\<open>int(s)\<close> and \<^verbatim>\<open>float(s)\<close> for a string
  (\<open>None\<close> is the \<^verbatim>\<open>ValueError\<close>), \<^verbatim>\<open>str\<close> of a float, list or dict (their
  \<^verbatim>\<open>repr\<close>), and the two uses of the active time zone, which is set in the settings
  module: the calendar date of a stored instant (the \<^verbatim>\<open>__date\<close> lookup) and its rendering
  by \<^verbatim>\<open>timezone.localtime(when).strftime("%Y-%m-%d %H:%M")\<close>. Every theorem holds for
  every choice of them.
\<close>

record pyenv =
  int_of_str :: "string \<Rightarrow> int option"
  float_of_str :: "string \<Rightarrow> pyfloat option"
  repr_of :: "json \<Rightarrow> string"
  local_date :: "int \<Rightarrow> date"
  local_text :: "int \<Rightarrow> string"

definition bnd :: "py_error + 'a \<Rightarrow> ('a \<Rightarrow> py_error + 'b) \<Rightarrow> py_error + 'b" where
  "bnd m f = (case m of Inl e \<Rightarrow> Inl e | Inr v \<Rightarrow> f v)"

subsection \<open>Binary64 arithmetic\<close>

text \<open>
  \<open>floor_log2 x\<close> is the binary exponent of a positive rational: the \<open>e\<close> with
  \<open>2 ^ e \<le> x < 2 ^ (e + 1)\<close>. \<open>fl x\<close> is the binary64 number nearest to the rational
  \<open>x\<close>, ties to even: 53 significant bits, the least exponent \<open>-1074\<close> (subnormal
  numbers), and an infinity when the rounded magnitude reaches \<open>2 ^ 1024\<close>. The arithmetic of Python floats is this rounding applied to the
  exact result; Python's true division of two integers is rounded once as well.
\<close>

definition round_half_even :: "rat \<Rightarrow> int" where
  "round_half_even x =
     (let f = \<lfloor>x\<rfloor>; d = x - of_int f in
      if d < 1 / 2 then f
      else if 1 / 2 < d then f + 1
      else if even f then f else f + 1)"

definition floor_log2 :: "rat \<Rightarrow> int" where
  "floor_log2 x =
     (let (p, q) = quotient_of x; k = bitlen p - bitlen q in
      if 2 powi k \<le> x then k else k - 1)"

definition fl :: "rat \<Rightarrow> pyfloat" where
  "fl x =
     (if x = 0 then Fin 0
      else
        let e = max (floor_log2 \<bar>x\<bar> - 52) (- 1074);
            y = of_int (round_half_even (\<bar>x\<bar> / 2 powi e)) * 2 powi e
        in if 1024 \<le> floor_log2 y then (if 0 < x then PInf else NInf)
           else Fin (if 0 < x then y else - y))"

definition trunc :: "rat \<Rightarrow> int" where
  "trunc q = (if 0 \<le> q then \<lfloor>q\<rfloor> else - \<lfloor>- q\<rfloor>)"

definition float_of_int :: "int \<Rightarrow> py_error + pyfloat" where
  "float_of_int n = (case fl (of_int n) of Fin q \<Rightarrow> Inr (Fin q) | _ \<Rightarrow> Inl OverflowError)"

definition truediv :: "int \<Rightarrow> int \<Rightarrow> py_error + pyfloat" where
  "truediv a b =
     (if b = 0 then Inl ZeroDivisionError
      else case fl (of_int a / of_int b) of Fin q \<Rightarrow> Inr (Fin q) | _ \<Rightarrow> Inl OverflowError)"

fun fmul :: "pyfloat \<Rightarrow> pyfloat \<Rightarrow> pyfloat" where
  "fmul (Fin a) (Fin b) = fl (a * b)"
| "fmul NaN _ = NaN"
| "fmul _ NaN = NaN"
| "fmul PInf (Fin b) = (if 0 < b then PInf else if b < 0 then NInf else NaN)"
| "fmul NInf (Fin b) = (if 0 < b then NInf else if b < 0 then PInf else NaN)"
| "fmul (Fin a) PInf = (if 0 < a then PInf else if a < 0 then NInf else NaN)"
| "fmul (Fin a) NInf = (if 0 < a then NInf else if a < 0 then PInf else NaN)"
| "fmul PInf PInf = PInf"
| "fmul PInf NInf = NInf"
| "fmul NInf PInf = NInf"
| "fmul NInf NInf = PInf"

fun float_ge :: "pyfloat \<Rightarrow> pyfloat \<Rightarrow> bool" where
  "float_ge NaN _ = False"
| "float_ge _ NaN = False"
| "float_ge PInf _ = True"
| "float_ge _ NInf = True"
| "float_ge NInf _ = False"
| "float_ge _ PInf = False"
| "float_ge (Fin a) (Fin b) = (b \<le> a)"

text \<open>\<^verbatim>\<open>int(f)\<close> truncates toward zero; \<^verbatim>\<open>round(f)\<close> rounds to the nearest integer, ties to even.\<close>

fun int_of_float :: "pyfloat \<Rightarrow> py_error + int" where
  "int_of_float (Fin q) = Inr (trunc q)"
| "int_of_float NaN = Inl ValueError"
| "int_of_float PInf = Inl OverflowError"
| "int_of_float NInf = Inl OverflowError"

fun py_round :: "pyfloat \<Rightarrow> py_error + int" where
  "py_round (Fin q) = Inr (round_half_even q)"
| "py_round NaN = Inl ValueError"
| "py_round PInf = Inl OverflowError"
| "py_round NInf = Inl OverflowError"

subsection \<open>Truthiness, \<^verbatim>\<open>dict.get\<close>, conversions\<close>

fun truthy :: "json \<Rightarrow> bool" where
  "truthy JNull = False"
| "truthy (JBool b) = b"
| "truthy (JInt n) = (n \<noteq> 0)"
| "truthy (JFloat f) = (f \<noteq> Fin 0)"
| "truthy (JStr s) = (s \<noteq> [])"
| "truthy (JList xs) = (xs \<noteq> [])"
| "truthy (JDict d) = (d \<noteq> [])"

definition py_or :: "json \<Rightarrow> json \<Rightarrow> json" where
  "py_or a b = (if truthy a then a else b)"

definition dict_get :: "(string \<times> json) list \<Rightarrow> string \<Rightarrow> json" where
  "dict_get d k = (case map_of d k of None \<Rightarrow> JNull | Some v \<Rightarrow> v)"

definition dict_get_default :: "(string \<times> json) list \<Rightarrow> string \<Rightarrow> json \<Rightarrow> json" where
  "dict_get_default d k dflt = (case map_of d k of None \<Rightarrow> dflt | Some v \<Rightarrow> v)"

text \<open>\<^verbatim>\<open>v.get(k)\<close> on a value that may be no dict: only a dict has the method.\<close>

definition attr_get :: "json \<Rightarrow> string \<Rightarrow> py_error + json" where
  "attr_get v k = (case v of JDict d \<Rightarrow> Inr (dict_get d k) | _ \<Rightarrow> Inl AttributeError)"

text \<open>\<^verbatim>\<open>v.get(k1) or v.get(k2) or ...\<close>: the first truthy value, the last one otherwise.\<close>

fun get_first :: "json \<Rightarrow> string list \<Rightarrow> py_error + json" where
  "get_first v [] = Inr JNull"
| "get_first v [k] = attr_get v k"
| "get_first v (k # ks) = bnd (attr_get v k) (\<lambda>x. if truthy x then Inr x else get_first v ks)"

fun py_int :: "pyenv \<Rightarrow> json \<Rightarrow> py_error + int" where
  "py_int env JNull = Inl TypeError"
| "py_int env (JBool b) = Inr (if b then 1 else 0)"
| "py_int env (JInt n) = Inr n"
| "py_int env (JFloat f) = int_of_float f"
| "py_int env (JStr s) = (case int_of_str env s of None \<Rightarrow> Inl ValueError | Some n \<Rightarrow> Inr n)"
| "py_int env (JList xs) = Inl TypeError"
| "py_int env (JDict d) = Inl TypeError"

fun py_float :: "pyenv \<Rightarrow> json \<Rightarrow> py_error + pyfloat" where
  "py_float env JNull = Inl TypeError"
| "py_float env (JBool b) = Inr (Fin (if b then 1 else 0))"
| "py_float env (JInt n) = float_of_int n"
| "py_float env (JFloat f) = Inr f"
| "py_float env (JStr s) = (case float_of_str env s of None \<Rightarrow> Inl ValueError | Some f \<Rightarrow> Inr f)"
| "py_float env (JList xs) = Inl TypeError"
| "py_float env (JDict d) = Inl TypeError"

definition digit_char :: "nat \<Rightarrow> char" where
  "digit_char n = ''0123456789'' ! n"

fun dec_nat :: "nat \<Rightarrow> string" where
  "dec_nat n = (if n < 10 then [digit_char n] else dec_nat (n div 10) @ [digit_char (n mod 10)])"

definition dec_int :: "int \<Rightarrow> string" where
  "dec_int n = (if n < 0 then CHR ''-'' # dec_nat (nat (- n)) else dec_nat (nat n))"

fun py_str :: "pyenv \<Rightarrow> json \<Rightarrow> string" where
  "py_str env JNull = ''None''"
| "py_str env (JBool b) = (if b then ''True'' else ''False'')"
| "py_str env (JInt n) = dec_int n"
| "py_str env (JStr s) = s"
| "py_str env v = repr_of env v"

definition str_or_empty :: "pyenv \<Rightarrow> json \<Rightarrow> string" where
  "str_or_empty env v = py_str env (py_or v (JStr []))"

definition lower_char :: "char \<Rightarrow> char" where
  "lower_char c =
     (case map_of (zip ''ABCDEFGHIJKLMNOPQRSTUVWXYZ'' ''abcdefghijklmnopqrstuvwxyz'') c of
        Some u \<Rightarrow> u
      | None \<Rightarrow> c)"

definition lower :: "string \<Rightarrow> string" where
  "lower s = map lower_char s"

fun contains :: "string \<Rightarrow> string \<Rightarrow> bool" where
  "contains k [] = (k = [])"
| "contains k (c # cs) = (take (length k) (c # cs) = k \<or> contains k cs)"

section \<open>The API gateway (\<^verbatim>\<open>reports/poster_client.py\<close>)\<close>

record PosterClient =
  base_url :: string
  token :: string
  auth_style :: string
  timeout :: int

text \<open>
  The Django settings module is not part of the sources; \<open>from_settings\<close> reads three
  of its values, each of which may be unset (\<open>None\<close>) or empty.
\<close>

record poster_settings =
  POSTER_API_BASE_URL :: "string option"
  POSTER_API_TOKEN :: "string option"
  POSTER_AUTH_STYLE :: "string option"

definition setting_missing :: "string option \<Rightarrow> bool" where
  "setting_missing v = (case v of None \<Rightarrow> True | Some s \<Rightarrow> s = [])"

definition missing_settings :: "poster_settings \<Rightarrow> string list" where
  "missing_settings st =
     map fst (filter (\<lambda>(name, v). setting_missing v)
       [(''POSTER_API_BASE_URL'', POSTER_API_BASE_URL st),
        (''POSTER_API_TOKEN'', POSTER_API_TOKEN st),
        (''POSTER_AUTH_STYLE'', POSTER_AUTH_STYLE st)])"

definition from_settings :: "poster_settings \<Rightarrow> py_error + PosterClient" where
  "from_settings st =
     (if missing_settings st \<noteq> [] then Inl PosterConfigError
      else Inr \<lparr>base_url = the (POSTER_API_BASE_URL st),
                token = the (POSTER_API_TOKEN st),
                auth_style = the (POSTER_AUTH_STYLE st),
                timeout = 20\<rparr>)"

definition apply_auth ::
  "PosterClient \<Rightarrow> (string \<times> json) list \<Rightarrow> (string \<times> string) list
     \<Rightarrow> py_error + ((string \<times> json) list \<times> (string \<times> string) list)" where
  "apply_auth self params headers =
     (if auth_style self = ''query_token''
        then Inr (AList.update ''token'' (JStr (token self)) params, headers)
      else if auth_style self = ''query_access_token''
        then Inr (AList.update ''access_token'' (JStr (token self)) params, headers)
      else if auth_style self = ''bearer''
        then Inr (params, AList.update ''Authorization'' (''Bearer '' @ token self) headers)
      else Inl PosterConfigError)"

text \<open>
  The HTTP library is the environment. One call of \<^verbatim>\<open>requests.request\<close> either raises a
  \<^verbatim>\<open>RequestException\<close> or yields a response, of which the code reads the status
  (\<^verbatim>\<open>raise_for_status\<close> raises for a status from 400 to 599) and the body as JSON
  (\<^verbatim>\<open>response.json()\<close> raises a \<^verbatim>\<open>ValueError\<close> when the body is not JSON:
  \<open>None\<close> here).
\<close>

record http_request =
  req_method :: string
  req_url :: string
  req_params :: "(string \<times> json) list"
  req_json :: "json option"
  req_data :: "json option"
  req_headers :: "(string \<times> string) list"
  req_timeout :: int

datatype http_outcome = RequestException | Response int "json option"

type_synonym transport = "http_request \<Rightarrow> http_outcome"

definition rstrip_slash :: "string \<Rightarrow> string" where
  "rstrip_slash s = rev (dropWhile (\<lambda>c. c = CHR ''/'') (rev s))"

definition lstrip_slash :: "string \<Rightarrow> string" where
  "lstrip_slash s = dropWhile (\<lambda>c. c = CHR ''/'') s"

definition upper_char :: "char \<Rightarrow> char" where
  "upper_char c =
     (case map_of (zip ''abcdefghijklmnopqrstuvwxyz'' ''ABCDEFGHIJKLMNOPQRSTUVWXYZ'') c of
        Some u \<Rightarrow> u
      | None \<Rightarrow> c)"

definition upper :: "string \<Rightarrow> string" where
  "upper s = map upper_char s"

definition raise_for_status :: "int \<Rightarrow> bool" where
  "raise_for_status status = (400 \<le> status \<and> status < 600)"

definition build_request ::
  "PosterClient \<Rightarrow> string \<Rightarrow> string \<Rightarrow> (string \<times> json) list \<Rightarrow> (string \<times> string) list
     \<Rightarrow> json option \<Rightarrow> json option \<Rightarrow> http_request" where
  "build_request self method path params headers json_body form_body =
     \<lparr>req_method = upper method,
      req_url = rstrip_slash (base_url self) @ ''/'' @ lstrip_slash path,
      req_params = params,
      req_json = json_body,
      req_data = form_body,
      req_headers = headers,
      req_timeout = timeout self\<rparr>"

definition request ::
  "transport \<Rightarrow> PosterClient \<Rightarrow> string \<Rightarrow> string \<Rightarrow> (string \<times> json) list option
     \<Rightarrow> json option \<Rightarrow> json option \<Rightarrow> py_error + json" where
  "request http self method path params json_body form_body =
     (let params0 = (case params of None \<Rightarrow> [] | Some p \<Rightarrow> p) in
      case apply_auth self params0 [] of
        Inl e \<Rightarrow> Inl e
      | Inr (params1, headers1) \<Rightarrow>
          (case http (build_request self method path params1 headers1 json_body form_body) of
             RequestException \<Rightarrow> Inl PosterAPIError
           | Response status body \<Rightarrow>
               if raise_for_status status then Inl PosterAPIError
               else (case body of None \<Rightarrow> Inl PosterAPIError | Some v \<Rightarrow> Inr v)))"

definition get ::
  "transport \<Rightarrow> PosterClient \<Rightarrow> string \<Rightarrow> (string \<times> json) list option \<Rightarrow> py_error + json" where
  "get http self path params = request http self ''GET'' path params None None"

definition recognised_styles :: "string set" where
  "recognised_styles = {''query_token'', ''query_access_token'', ''bearer''}"

section \<open>The stored records (\<^verbatim>\<open>reports/models.py\<close>)\<close>

text \<open>
  A table is the list of its rows in insertion order. The primary key and the
  \<^verbatim>\<open>created_at\<close> and \<^verbatim>\<open>updated_at\<close> stamps, which the ORM sets from the clock, are left
  out, and integer columns are unbounded. Field names carry the table's prefix.
\<close>

record DailyReport =
  dr_date :: date
  dr_transactions_count :: int
  dr_revenue :: int
  dr_avg_check :: int
  dr_raw_transactions :: json
  dr_raw_payments :: json
  dr_raw_products_sales :: json

record Transaction =
  tx_transaction_id :: string
  tx_date_start :: "int option"
  tx_date_close :: "int option"
  tx_status :: "int option"
  tx_sum :: int
  tx_payed_sum :: int
  tx_payed_cash :: int
  tx_payed_card :: int
  tx_payed_bonus :: int
  tx_payed_third_party :: int
  tx_payed_cert :: int
  tx_spot_id :: string
  tx_table_id :: string
  tx_user_id :: string
  tx_client_id :: string
  tx_service_mode :: string
  tx_processing_status :: string
  tx_raw :: json

record Spot =
  sp_spot_id :: string
  sp_name :: string

text \<open>\<^verbatim>\<open>PaymentsReport\<close>, \<^verbatim>\<open>ProductsSalesReport\<close> and \<^verbatim>\<open>SpotsSalesReport\<close> have the same columns.\<close>

record AggregateReport =
  ar_date :: date
  ar_raw :: json

text \<open>
  The message of an issue is an f-string over the values kept here; its rendering (Russian
  text, a float format for the sum) is not modelled. \<open>Message_text\<close> is any other text
  a stored row may hold.
\<close>

datatype issue_message =
    Message_text string
  | Msg_zero_or_negative_sum string
  | Msg_payment_mismatch string
  | Msg_table_move string json string int
  | Msg_no_transactions

record DataIssue =
  di_date :: date
  di_issue_type :: string
  di_severity :: int
  di_message :: issue_message
  di_context :: json
  di_ignored :: bool
  di_ignored_at :: "int option"

text \<open>Title and details of an insight, likewise: the percentage is the one the details quote.\<close>

datatype insight_text =
    Insight_text string string
  | No_sales
  | Revenue_drop int
  | Avg_check_drop int

record Insight =
  ins_date :: date
  ins_text :: insight_text
  ins_severity :: int

record db =
  spots :: "Spot list"
  transactions :: "Transaction list"
  payments_reports :: "AggregateReport list"
  products_sales_reports :: "AggregateReport list"
  spots_sales_reports :: "AggregateReport list"
  daily_reports :: "DailyReport list"
  data_issues :: "DataIssue list"
  insights :: "Insight list"

text \<open>
  \<^verbatim>\<open>Model.objects.update_or_create(key, defaults)\<close>, where the defaults are all the modelled
  columns but the key: the row with the key is replaced, or a new row is appended.
  Django raises \<^verbatim>\<open>MultipleObjectsReturned\<close> when several rows have the key.
\<close>

definition update_or_create :: "('r \<Rightarrow> bool) \<Rightarrow> 'r \<Rightarrow> 'r list \<Rightarrow> py_error + 'r list" where
  "update_or_create matches new rows =
     (case filter matches rows of
        [] \<Rightarrow> Inr (rows @ [new])
      | [r] \<Rightarrow> Inr (map (\<lambda>x. if matches x then new else x) rows)
      | _ \<Rightarrow> Inl MultipleObjectsReturned)"

text \<open>\<^verbatim>\<open>Model.objects.filter(...).first()\<close>.\<close>

definition first :: "('r \<Rightarrow> bool) \<Rightarrow> 'r list \<Rightarrow> 'r option" where
  "first matches rows = (case filter matches rows of [] \<Rightarrow> None | r # _ \<Rightarrow> Some r)"

section \<open>The importer (\<^verbatim>\<open>reports/services.py\<close>, \<^verbatim>\<open>import_daily\<close>)\<close>

definition pad2 :: "nat \<Rightarrow> string" where
  "pad2 n = (if n < 10 then CHR ''0'' # dec_nat n else dec_nat n)"

definition yyyymmdd :: "date \<Rightarrow> string" where
  "yyyymmdd d = dec_nat (year d) @ pad2 (month d) @ pad2 (day d)"

definition safe_int :: "pyenv \<Rightarrow> json \<Rightarrow> py_error + int" where
  "safe_int env v =
     (case py_int env v of
        Inl TypeError \<Rightarrow> Inr 0
      | Inl ValueError \<Rightarrow> Inr 0
      | r \<Rightarrow> r)"

text \<open>
  \<^verbatim>\<open>datetime.fromtimestamp(t, tz=utc)\<close>: the float is split into whole seconds and a
  fraction, the fraction is rounded to microseconds (ties to even), and an instant outside
  the years 1 to 9999 is refused. Which exception that is (\<^verbatim>\<open>ValueError\<close>,
  \<^verbatim>\<open>OverflowError\<close> or \<^verbatim>\<open>OSError\<close>) depends on the magnitude and the platform; the
  model raises \<open>ValueError\<close>. The result is in microseconds since the epoch.
\<close>

definition fromtimestamp :: "pyfloat \<Rightarrow> py_error + int" where
  "fromtimestamp t =
     (case t of
        Fin d \<Rightarrow>
          (let secs = trunc d in
           case py_round (fmul (Fin (d - of_int secs)) (Fin 1000000)) of
             Inl e \<Rightarrow> Inl e
           | Inr us \<Rightarrow>
               (let micros = secs * 1000000 + us in
                if - 62135596800000000 \<le> micros \<and> micros < 253402300800000000
                then Inr micros else Inl ValueError))
      | NaN \<Rightarrow> Inl ValueError
      | _ \<Rightarrow> Inl OverflowError)"

definition parse_ms :: "pyenv \<Rightarrow> json \<Rightarrow> py_error + int option" where
  "parse_ms env v =
     (case py_int env v of
        Inl TypeError \<Rightarrow> Inr None
      | Inl ValueError \<Rightarrow> Inr None
      | Inl e \<Rightarrow> Inl e
      | Inr ms \<Rightarrow>
          if ms \<le> 0 then Inr None
          else bnd (truediv ms 1000) (\<lambda>t. bnd (fromtimestamp t) (\<lambda>d. Inr (Some d))))"

definition extract_transactions :: "json \<Rightarrow> json list" where
  "extract_transactions data =
     (case data of
        JDict d \<Rightarrow> (case dict_get d ''response'' of JList xs \<Rightarrow> xs | _ \<Rightarrow> [])
      | _ \<Rightarrow> [])"

text \<open>The optional fetches: \<^verbatim>\<open>try: ... = client.get(...) except PosterAPIError: ... = {}\<close>.\<close>

definition or_empty :: "py_error + json \<Rightarrow> py_error + json" where
  "or_empty r = (case r of Inl PosterAPIError \<Rightarrow> Inr (JDict []) | _ \<Rightarrow> r)"

text \<open>The directory sync; every step can raise, and the rows written before stay written.\<close>

fun sync_spot_rows :: "pyenv \<Rightarrow> json list \<Rightarrow> Spot list \<Rightarrow> Spot list \<times> (py_error + unit)" where
  "sync_spot_rows env [] tbl = (tbl, Inr ())"
| "sync_spot_rows env (row # rows) tbl =
     (case attr_get row ''spot_id'' of
        Inl e \<Rightarrow> (tbl, Inl e)
      | Inr sid \<Rightarrow>
          (case attr_get row ''name'' of
             Inl e \<Rightarrow> (tbl, Inl e)
           | Inr nm \<Rightarrow>
               (let spot_id = str_or_empty env sid; name = str_or_empty env nm in
                if spot_id \<noteq> [] \<and> name \<noteq> [] then
                  (case update_or_create (\<lambda>r. sp_spot_id r = spot_id)
                          \<lparr>sp_spot_id = spot_id, sp_name = name\<rparr> tbl of
                     Inl e \<Rightarrow> (tbl, Inl e)
                   | Inr tbl' \<Rightarrow> sync_spot_rows env rows tbl')
                else sync_spot_rows env rows tbl)))"

definition sync_spots :: "pyenv \<Rightarrow> py_error + json \<Rightarrow> Spot list \<Rightarrow> Spot list \<times> (py_error + unit)" where
  "sync_spots env fetched tbl =
     (case fetched of
        Inl PosterAPIError \<Rightarrow> (tbl, Inr ())
      | Inl e \<Rightarrow> (tbl, Inl e)
      | Inr (JDict d) \<Rightarrow>
          (case dict_get d ''response'' of
             JList rows \<Rightarrow> sync_spot_rows env rows tbl
           | _ \<Rightarrow> (tbl, Inr ()))
      | Inr _ \<Rightarrow> (tbl, Inr ()))"

text \<open>\<^verbatim>\<open>sum(_safe_int(item.get("sum")) for item in items)\<close>.\<close>

fun sum_of_sums :: "pyenv \<Rightarrow> json list \<Rightarrow> py_error + int" where
  "sum_of_sums env [] = Inr 0"
| "sum_of_sums env (item # items) =
     bnd (attr_get item ''sum'') (\<lambda>v.
     bnd (safe_int env v) (\<lambda>n.
     bnd (sum_of_sums env items) (\<lambda>total. Inr (n + total))))"

text \<open>\<^verbatim>\<open>int(revenue / transactions_count) if transactions_count else 0\<close>.\<close>

definition derive_avg :: "int \<Rightarrow> int \<Rightarrow> py_error + int" where
  "derive_avg revenue transactions_count =
     (if transactions_count \<noteq> 0
      then bnd (truediv revenue transactions_count) int_of_float
      else Inr 0)"

definition field_int :: "pyenv \<Rightarrow> json \<Rightarrow> string \<Rightarrow> py_error + int" where
  "field_int env item k = bnd (attr_get item k) (safe_int env)"

definition field_str :: "pyenv \<Rightarrow> json \<Rightarrow> string \<Rightarrow> py_error + string" where
  "field_str env item k = bnd (attr_get item k) (\<lambda>v. Inr (str_or_empty env v))"

definition field_ms :: "pyenv \<Rightarrow> json \<Rightarrow> string \<Rightarrow> py_error + int option" where
  "field_ms env item k = bnd (attr_get item k) (parse_ms env)"

text \<open>The row one fetched entry is stored as, its columns computed in the source's order.\<close>

definition transaction_row :: "pyenv \<Rightarrow> string \<Rightarrow> json \<Rightarrow> py_error + Transaction" where
  "transaction_row env transaction_id item =
     bnd (field_ms env item ''date_start'') (\<lambda>date_start.
     bnd (field_ms env item ''date_close'') (\<lambda>date_close.
     bnd (field_int env item ''status'') (\<lambda>status.
     bnd (field_int env item ''sum'') (\<lambda>sum0.
     bnd (field_int env item ''payed_sum'') (\<lambda>payed_sum.
     bnd (field_int env item ''payed_cash'') (\<lambda>payed_cash.
     bnd (field_int env item ''payed_card'') (\<lambda>payed_card.
     bnd (field_int env item ''payed_bonus'') (\<lambda>payed_bonus.
     bnd (field_int env item ''payed_third_party'') (\<lambda>payed_third_party.
     bnd (field_int env item ''payed_cert'') (\<lambda>payed_cert.
     bnd (field_str env item ''spot_id'') (\<lambda>spot_id.
     bnd (field_str env item ''table_id'') (\<lambda>table_id.
     bnd (field_str env item ''user_id'') (\<lambda>user_id.
     bnd (field_str env item ''client_id'') (\<lambda>client_id.
     bnd (field_str env item ''service_mode'') (\<lambda>service_mode.
     bnd (field_str env item ''processing_status'') (\<lambda>processing_status.
       Inr \<lparr>tx_transaction_id = transaction_id,
            tx_date_start = date_start,
            tx_date_close = date_close,
            tx_status = Some status,
            tx_sum = sum0,
            tx_payed_sum = payed_sum,
            tx_payed_cash = payed_cash,
            tx_payed_card = payed_card,
            tx_payed_bonus = payed_bonus,
            tx_payed_third_party = payed_third_party,
            tx_payed_cert = payed_cert,
            tx_spot_id = spot_id,
            tx_table_id = table_id,
            tx_user_id = user_id,
            tx_client_id = client_id,
            tx_service_mode = service_mode,
            tx_processing_status = processing_status,
            tx_raw = item\<rparr>))))))))))))))))"

text \<open>The identifier of a fetched entry: \<^verbatim>\<open>str(item.get("transaction_id") or "")\<close>.\<close>

definition entry_id :: "pyenv \<Rightarrow> json \<Rightarrow> py_error + string" where
  "entry_id env item = field_str env item ''transaction_id''"

fun upsert_transactions ::
  "pyenv \<Rightarrow> json list \<Rightarrow> Transaction list \<Rightarrow> Transaction list \<times> (py_error + unit)" where
  "upsert_transactions env [] tbl = (tbl, Inr ())"
| "upsert_transactions env (item # items) tbl =
     (case entry_id env item of
        Inl e \<Rightarrow> (tbl, Inl e)
      | Inr transaction_id \<Rightarrow>
          if transaction_id = [] then upsert_transactions env items tbl
          else
            (case bnd (transaction_row env transaction_id item)
                    (\<lambda>row. update_or_create (\<lambda>r. tx_transaction_id r = transaction_id) row tbl) of
               Inl e \<Rightarrow> (tbl, Inl e)
             | Inr tbl' \<Rightarrow> upsert_transactions env items tbl'))"

text \<open>
  Reconciliation with the per-location aggregate. The three figures travel together as
  \<open>(transactions_count, revenue, avg_check)\<close>.
\<close>

definition cents :: "pyfloat \<Rightarrow> py_error + int" where
  "cents f = py_round (fmul f (Fin 100))"

text \<open>
  \<^verbatim>\<open>try: avg_check = int(round(float(middle_invoice) * 100))\<close> with its
  \<^verbatim>\<open>except (TypeError, ValueError)\<close>, which re-derives the average.
\<close>

definition middle_invoice_avg :: "pyenv \<Rightarrow> json \<Rightarrow> int \<Rightarrow> int \<Rightarrow> py_error + int" where
  "middle_invoice_avg env middle_invoice revenue transactions_count =
     (case bnd (py_float env middle_invoice) cents of
        Inl TypeError \<Rightarrow> derive_avg revenue transactions_count
      | Inl ValueError \<Rightarrow> derive_avg revenue transactions_count
      | r \<Rightarrow> r)"

definition reconcile_total ::
  "pyenv \<Rightarrow> (string \<times> json) list \<Rightarrow> int \<times> int \<times> int \<Rightarrow> py_error + int \<times> int \<times> int" where
  "reconcile_total env response raw =
     bnd (py_float env (py_or (dict_get response ''revenue'') (JInt 0))) (\<lambda>total_revenue_eur.
     bnd (safe_int env (py_or (dict_get response ''clients'')
                              (dict_get response ''transactions_count''))) (\<lambda>total_tx.
       if float_ge total_revenue_eur (Fin 0) then
         bnd (cents total_revenue_eur) (\<lambda>revenue.
           let middle_invoice = dict_get response ''middle_invoice'' in
           bnd (if middle_invoice \<noteq> JNull
                then middle_invoice_avg env middle_invoice revenue total_tx
                else derive_avg revenue total_tx) (\<lambda>avg_check.
             Inr (total_tx, revenue, avg_check)))
       else Inr raw))"

fun rows_totals :: "pyenv \<Rightarrow> json list \<Rightarrow> int \<times> int \<Rightarrow> py_error + int \<times> int" where
  "rows_totals env [] acc = Inr acc"
| "rows_totals env (row # rows) (total_revenue, total_tx) =
     bnd (get_first row [''revenue'', ''sum'']) (\<lambda>r.
     bnd (safe_int env r) (\<lambda>rn.
     bnd (get_first row [''transactions_count'', ''count'', ''clients'']) (\<lambda>c.
     bnd (safe_int env c) (\<lambda>cn.
       rows_totals env rows (total_revenue + rn, total_tx + cn)))))"

definition reconcile_rows ::
  "pyenv \<Rightarrow> json list \<Rightarrow> int \<times> int \<times> int \<Rightarrow> py_error + int \<times> int \<times> int" where
  "reconcile_rows env rows raw =
     bnd (rows_totals env rows (0, 0)) (\<lambda>(total_revenue, total_tx).
       if 0 \<le> total_revenue then
         bnd (derive_avg total_revenue total_tx) (\<lambda>avg_check.
           Inr (total_tx, total_revenue, avg_check))
       else Inr raw)"

definition reconcile :: "pyenv \<Rightarrow> json \<Rightarrow> int \<times> int \<times> int \<Rightarrow> py_error + int \<times> int \<times> int" where
  "reconcile env spots_sales raw =
     (case spots_sales of
        JDict d \<Rightarrow>
          (case dict_get d ''response'' of
             JDict response \<Rightarrow>
               if dict_get response ''revenue'' \<noteq> JNull then reconcile_total env response raw
               else Inr raw
           | JList rows \<Rightarrow> reconcile_rows env rows raw
           | _ \<Rightarrow> Inr raw)
      | _ \<Rightarrow> Inr raw)"

text \<open>The figures of step 6, from the transactions response alone.\<close>

definition raw_totals :: "pyenv \<Rightarrow> json list \<Rightarrow> py_error + int \<times> int \<times> int" where
  "raw_totals env items =
     bnd (sum_of_sums env items) (\<lambda>revenue.
     bnd (derive_avg revenue (int (length items))) (\<lambda>avg_check.
       Inr (int (length items), revenue, avg_check)))"

definition upsert_report :: "date \<Rightarrow> json \<Rightarrow> AggregateReport list \<Rightarrow> py_error + AggregateReport list" where
  "upsert_report report_date payload tbl =
     update_or_create (\<lambda>r. ar_date r = report_date) \<lparr>ar_date = report_date, ar_raw = payload\<rparr> tbl"

text \<open>
  Everything after the fetches and the directory sync (lines 99 to 185). A raise leaves
  the rows written so far.
\<close>

definition finish_import ::
  "pyenv \<Rightarrow> date \<Rightarrow> json \<Rightarrow> json \<Rightarrow> json \<Rightarrow> json \<Rightarrow> db \<Rightarrow> db \<times> (py_error + int)" where
  "finish_import env report_date transactions0 payments products_sales spots_sales s =
     (let items = extract_transactions transactions0 in
      case raw_totals env items of
        Inl e \<Rightarrow> (s, Inl e)
      | Inr raw \<Rightarrow>
      (case upsert_transactions env items (transactions s) of
        (tbl, Inl e) \<Rightarrow> (s\<lparr>transactions := tbl\<rparr>, Inl e)
      | (tbl, Inr _) \<Rightarrow>
      (let s1 = s\<lparr>transactions := tbl\<rparr> in
       case upsert_report report_date payments (payments_reports s1) of
        Inl e \<Rightarrow> (s1, Inl e)
      | Inr pr \<Rightarrow>
      (let s2 = s1\<lparr>payments_reports := pr\<rparr> in
       case (if truthy products_sales
             then upsert_report report_date products_sales (products_sales_reports s2)
             else Inr (products_sales_reports s2)) of
        Inl e \<Rightarrow> (s2, Inl e)
      | Inr psr \<Rightarrow>
      (let s3 = s2\<lparr>products_sales_reports := psr\<rparr> in
       case (if truthy spots_sales
             then upsert_report report_date spots_sales (spots_sales_reports s3)
             else Inr (spots_sales_reports s3)) of
        Inl e \<Rightarrow> (s3, Inl e)
      | Inr ssr \<Rightarrow>
      (let s4 = s3\<lparr>spots_sales_reports := ssr\<rparr> in
       case reconcile env spots_sales raw of
        Inl e \<Rightarrow> (s4, Inl e)
      | Inr (transactions_count, revenue, avg_check) \<Rightarrow>
      (case update_or_create (\<lambda>r. dr_date r = report_date)
              \<lparr>dr_date = report_date,
               dr_transactions_count = transactions_count,
               dr_revenue = revenue,
               dr_avg_check = avg_check,
               dr_raw_transactions = transactions0,
               dr_raw_payments = payments,
               dr_raw_products_sales = products_sales\<rparr> (daily_reports s4) of
        Inl e \<Rightarrow> (s4, Inl e)
      | Inr dr \<Rightarrow> (s4\<lparr>daily_reports := dr\<rparr>, Inr transactions_count))))))))"

definition date_params :: "string \<Rightarrow> string \<Rightarrow> date \<Rightarrow> (string \<times> json) list option" where
  "date_params from_key to_key report_date =
     Some [(from_key, JStr (yyyymmdd report_date)), (to_key, JStr (yyyymmdd report_date))]"

text \<open>
  The importer proper, given what its five fetches returned or raised, in the order the
  source makes them (\<open>None\<close>: the products-sales fetch was not asked for). The fetches
  write nothing, so a raise of a required one leaves the database as it was.
\<close>

definition import_fetched ::
  "pyenv \<Rightarrow> date \<Rightarrow> py_error + json \<Rightarrow> py_error + json \<Rightarrow> (py_error + json) option
     \<Rightarrow> py_error + json \<Rightarrow> py_error + json \<Rightarrow> db \<Rightarrow> db \<times> (py_error + int)" where
  "import_fetched env report_date transactions_f payments_f products_f spots_sales_f spots_f s =
     (case transactions_f of
        Inl e \<Rightarrow> (s, Inl e)
      | Inr transactions0 \<Rightarrow>
      (case payments_f of
        Inl e \<Rightarrow> (s, Inl e)
      | Inr payments \<Rightarrow>
      (case (case products_f of Some f \<Rightarrow> or_empty f | None \<Rightarrow> Inr (JDict [])) of
        Inl e \<Rightarrow> (s, Inl e)
      | Inr products_sales \<Rightarrow>
      (case or_empty spots_sales_f of
        Inl e \<Rightarrow> (s, Inl e)
      | Inr spots_sales \<Rightarrow>
      (case sync_spots env spots_f (spots s) of
        (tbl, Inl e) \<Rightarrow> (s\<lparr>spots := tbl\<rparr>, Inl e)
      | (tbl, Inr _) \<Rightarrow>
          finish_import env report_date transactions0 payments products_sales spots_sales
            (s\<lparr>spots := tbl\<rparr>))))))"

definition import_daily ::
  "pyenv \<Rightarrow> transport \<Rightarrow> PosterClient \<Rightarrow> date \<Rightarrow> bool \<Rightarrow> db \<Rightarrow> db \<times> (py_error + int)" where
  "import_daily env http client report_date include_products_sales s =
     import_fetched env report_date
       (get http client ''dash.getTransactions'' (date_params ''dateFrom'' ''dateTo'' report_date))
       (get http client ''dash.getPaymentsReport'' (date_params ''date_from'' ''date_to'' report_date))
       (if include_products_sales
        then Some (get http client ''dash.getProductsSales''
                     (date_params ''dateFrom'' ''dateTo'' report_date))
        else None)
       (get http client ''dash.getSpotsSales'' (date_params ''dateFrom'' ''dateTo'' report_date))
       (get http client ''spots.getSpots'' None)
       s"

text \<open>The rollup stored for a date: \<^verbatim>\<open>DailyReport.objects.filter(date=d).first()\<close>.\<close>

definition daily_report_on :: "date \<Rightarrow> db \<Rightarrow> DailyReport option" where
  "daily_report_on report_date s = first (\<lambda>r. dr_date r = report_date) (daily_reports s)"

section \<open>The anomaly scanner (\<^verbatim>\<open>scan_anomalies\<close>)\<close>

text \<open>\<^verbatim>\<open>Transaction.objects.filter(date_start__date=report_date)\<close>.\<close>

definition on_date :: "pyenv \<Rightarrow> date \<Rightarrow> Transaction \<Rightarrow> bool" where
  "on_date env report_date tx =
     (case tx_date_start tx of None \<Rightarrow> False | Some t \<Rightarrow> local_date env t = report_date)"

text \<open>
  The key of an issue: \<^verbatim>\<open>(issue.issue_type, (issue.context or {}).get("transaction_id"))\<close>.
  A context that is truthy and no dict has no \<^verbatim>\<open>get\<close>; a list or dict as identifier
  cannot be hashed into the set.
\<close>

fun hashable :: "json \<Rightarrow> bool" where
  "hashable (JList xs) = False"
| "hashable (JDict d) = False"
| "hashable v = True"

definition issue_key :: "DataIssue \<Rightarrow> py_error + string \<times> json" where
  "issue_key issue =
     bnd (attr_get (py_or (di_context issue) (JDict [])) ''transaction_id'') (\<lambda>t.
       if hashable t then Inr (di_issue_type issue, t) else Inl TypeError)"

fun issue_keys :: "DataIssue list \<Rightarrow> py_error + (string \<times> json) list" where
  "issue_keys [] = Inr []"
| "issue_keys (issue # issues) =
     bnd (issue_key issue) (\<lambda>k. bnd (issue_keys issues) (\<lambda>ks. Inr (k # ks)))"

definition new_issue :: "date \<Rightarrow> string \<Rightarrow> int \<Rightarrow> issue_message \<Rightarrow> json \<Rightarrow> DataIssue" where
  "new_issue report_date issue_type severity message context =
     \<lparr>di_date = report_date, di_issue_type = issue_type, di_severity = severity,
      di_message = message, di_context = context, di_ignored = False, di_ignored_at = None\<rparr>"

definition move_keywords :: "string list" where
  "move_keywords = [''transfer'', ''move'', ''change_table'', ''change table'', ''change_table_id'']"

fun table_moved :: "pyenv \<Rightarrow> json list \<Rightarrow> py_error + bool" where
  "table_moved env [] = Inr False"
| "table_moved env (h # hs) =
     bnd (attr_get h ''type_history'') (\<lambda>v.
       let t = lower (str_or_empty env v) in
       if (\<exists>k \<in> set move_keywords. contains k t) then Inr True else table_moved env hs)"

definition em_dash :: string where
  "em_dash = [char_of (226::nat), char_of (128::nat), char_of (148::nat)]"

definition payed_parts :: "Transaction \<Rightarrow> int" where
  "payed_parts tx =
     tx_payed_cash tx + tx_payed_card tx + tx_payed_bonus tx + tx_payed_third_party tx
       + tx_payed_cert tx"

definition table_move_issue :: "pyenv \<Rightarrow> date \<Rightarrow> Transaction \<Rightarrow> (string \<times> json) list \<Rightarrow> DataIssue" where
  "table_move_issue env report_date tx raw =
     (let waiter = py_or (py_or (dict_get raw ''name'') (dict_get raw ''waiter''))
                         (dict_get raw ''user_name'');
          when = (case tx_date_close tx of Some t \<Rightarrow> Some t | None \<Rightarrow> tx_date_start tx);
          when_text = (case when of Some t \<Rightarrow> local_text env t | None \<Rightarrow> em_dash)
      in new_issue report_date ''table_move'' 1
           (Msg_table_move (tx_transaction_id tx) waiter when_text (tx_sum tx))
           (JDict [(''transaction_id'', JStr (tx_transaction_id tx)),
                   (''waiter'', waiter),
                   (''time'', JStr when_text),
                   (''sum'', JInt (tx_sum tx))]))"

definition zero_sum_issues :: "date \<Rightarrow> (string \<times> json) list \<Rightarrow> Transaction \<Rightarrow> DataIssue list" where
  "zero_sum_issues report_date existing_ignored tx =
     (if tx_status tx = Some 2 \<and> tx_sum tx \<le> 0
         \<and> (''zero_or_negative_sum'', JStr (tx_transaction_id tx)) \<notin> set existing_ignored
      then [new_issue report_date ''zero_or_negative_sum'' 2
              (Msg_zero_or_negative_sum (tx_transaction_id tx))
              (JDict [(''transaction_id'', JStr (tx_transaction_id tx)),
                      (''sum'', JInt (tx_sum tx))])]
      else [])"

definition mismatch_issues :: "date \<Rightarrow> (string \<times> json) list \<Rightarrow> Transaction \<Rightarrow> DataIssue list" where
  "mismatch_issues report_date existing_ignored tx =
     (if 0 < tx_payed_sum tx \<and> payed_parts tx \<noteq> tx_payed_sum tx
         \<and> (''payment_mismatch'', JStr (tx_transaction_id tx)) \<notin> set existing_ignored
      then [new_issue report_date ''payment_mismatch'' 2
              (Msg_payment_mismatch (tx_transaction_id tx))
              (JDict [(''transaction_id'', JStr (tx_transaction_id tx)),
                      (''payed_sum'', JInt (tx_payed_sum tx)),
                      (''payed_parts'', JInt (payed_parts tx))])]
      else [])"

definition table_move_issues ::
  "pyenv \<Rightarrow> date \<Rightarrow> (string \<times> json) list \<Rightarrow> Transaction \<Rightarrow> py_error + DataIssue list" where
  "table_move_issues env report_date existing_ignored tx =
     (case tx_raw tx of
        JDict raw \<Rightarrow>
          (case dict_get raw ''history'' of
             JList history \<Rightarrow>
               bnd (table_moved env history) (\<lambda>moved.
                 Inr (if moved
                         \<and> (''table_move'', JStr (tx_transaction_id tx)) \<notin> set existing_ignored
                      then [table_move_issue env report_date tx raw] else []))
           | _ \<Rightarrow> Inr [])
      | _ \<Rightarrow> Inr [])"

text \<open>
  The issues of one transaction, in the order the loop body appends them. The history is
  read last, so its raise comes after the two checks; nothing is written before the loop
  has ended.
\<close>

definition tx_issues ::
  "pyenv \<Rightarrow> date \<Rightarrow> (string \<times> json) list \<Rightarrow> Transaction \<Rightarrow> py_error + DataIssue list" where
  "tx_issues env report_date existing_ignored tx =
     bnd (table_move_issues env report_date existing_ignored tx) (\<lambda>moved.
       Inr (zero_sum_issues report_date existing_ignored tx
            @ mismatch_issues report_date existing_ignored tx @ moved))"

fun all_tx_issues ::
  "pyenv \<Rightarrow> date \<Rightarrow> (string \<times> json) list \<Rightarrow> Transaction list \<Rightarrow> py_error + DataIssue list" where
  "all_tx_issues env report_date existing_ignored [] = Inr []"
| "all_tx_issues env report_date existing_ignored (tx # txs) =
     bnd (tx_issues env report_date existing_ignored tx) (\<lambda>here.
     bnd (all_tx_issues env report_date existing_ignored txs) (\<lambda>rest. Inr (here @ rest)))"

definition no_transactions_issue :: "date \<Rightarrow> (string \<times> json) list \<Rightarrow> DailyReport list \<Rightarrow> DataIssue list" where
  "no_transactions_issue report_date existing_ignored reports =
     (case first (\<lambda>r. dr_date r = report_date) reports of
        Some report \<Rightarrow>
          if dr_transactions_count report = 0
             \<and> (''no_transactions'', JNull) \<notin> set existing_ignored
          then [new_issue report_date ''no_transactions'' 1 Msg_no_transactions (JDict [])]
          else []
      | None \<Rightarrow> [])"

text \<open>The freshly computed issues, before anything is written.\<close>

definition computed_issues :: "pyenv \<Rightarrow> date \<Rightarrow> db \<Rightarrow> py_error + DataIssue list" where
  "computed_issues env report_date s =
     bnd (issue_keys (filter (\<lambda>i. di_date i = report_date \<and> di_ignored i) (data_issues s)))
       (\<lambda>existing_ignored.
     bnd (all_tx_issues env report_date existing_ignored
            (filter (on_date env report_date) (transactions s))) (\<lambda>issues.
       Inr (issues @ no_transactions_issue report_date existing_ignored (daily_reports s))))"

definition scan_anomalies :: "pyenv \<Rightarrow> date \<Rightarrow> db \<Rightarrow> db \<times> (py_error + DataIssue list)" where
  "scan_anomalies env report_date s =
     (case computed_issues env report_date s of
        Inl e \<Rightarrow> (s, Inl e)
      | Inr issues \<Rightarrow>
          (s\<lparr>data_issues :=
               filter (\<lambda>i. \<not> (di_date i = report_date \<and> \<not> di_ignored i)) (data_issues s) @ issues\<rparr>,
           Inr issues))"

section \<open>The insight generator (\<^verbatim>\<open>generate_insights\<close>)\<close>

text \<open>\<^verbatim>\<open>DailyReport.objects.filter(date__lt=report_date).order_by("-date").first()\<close>.\<close>

definition latest_before :: "date \<Rightarrow> DailyReport list \<Rightarrow> DailyReport option" where
  "latest_before report_date rows =
     foldl (\<lambda>best r.
              if date_lt (dr_date r) report_date
                 \<and> (case best of None \<Rightarrow> True | Some b \<Rightarrow> date_lt (dr_date b) (dr_date r))
              then Some r else best)
       None rows"

text \<open>
  \<^verbatim>\<open>drop = (prev - cur) / prev\<close>, then \<^verbatim>\<open>if drop >= 0.3\<close> the percentage
  \<^verbatim>\<open>int(drop*100)\<close> of the details; \<open>None\<close> when the comparison fails. The literal
  \<^verbatim>\<open>0.3\<close> is the binary64 number nearest to three tenths.
\<close>

definition drop_percent :: "int \<Rightarrow> int \<Rightarrow> py_error + int option" where
  "drop_percent prev cur =
     bnd (truediv (prev - cur) prev) (\<lambda>drop.
       if float_ge drop (fl (3 / 10))
       then bnd (int_of_float (fmul drop (Fin 100))) (\<lambda>p. Inr (Some p))
       else Inr None)"

definition new_insight :: "date \<Rightarrow> insight_text \<Rightarrow> int \<Rightarrow> Insight" where
  "new_insight report_date txt severity =
     \<lparr>ins_date = report_date, ins_text = txt, ins_severity = severity\<rparr>"

definition computed_insights :: "date \<Rightarrow> DailyReport \<Rightarrow> DailyReport option \<Rightarrow> py_error + Insight list" where
  "computed_insights report_date current prev =
     (let no_sales =
            (if dr_transactions_count current = 0 then [new_insight report_date No_sales 2] else [])
      in
      bnd (case prev of
             Some p \<Rightarrow>
               if 0 < dr_revenue p then
                 bnd (drop_percent (dr_revenue p) (dr_revenue current)) (\<lambda>r.
                   Inr (case r of Some pct \<Rightarrow> [new_insight report_date (Revenue_drop pct) 2]
                        | None \<Rightarrow> []))
               else Inr []
           | None \<Rightarrow> Inr []) (\<lambda>revenue_drop.
      bnd (case prev of
             Some p \<Rightarrow>
               if 0 < dr_avg_check p then
                 bnd (drop_percent (dr_avg_check p) (dr_avg_check current)) (\<lambda>r.
                   Inr (case r of Some pct \<Rightarrow> [new_insight report_date (Avg_check_drop pct) 1]
                        | None \<Rightarrow> []))
               else Inr []
           | None \<Rightarrow> Inr []) (\<lambda>avg_drop.
        Inr (no_sales @ revenue_drop @ avg_drop))))"

definition generate_insights :: "date \<Rightarrow> db \<Rightarrow> db \<times> (py_error + int)" where
  "generate_insights report_date s =
     (case daily_report_on report_date s of
        None \<Rightarrow> (s, Inr 0)
      | Some current \<Rightarrow>
          (case computed_insights report_date current (latest_before report_date (daily_reports s)) of
             Inl e \<Rightarrow> (s, Inl e)
           | Inr new \<Rightarrow>
               (s\<lparr>insights := filter (\<lambda>i. ins_date i \<noteq> report_date) (insights s) @ new\<rparr>,
                Inr (int (length new)))))"

section \<open>The summary aggregator (\<^verbatim>\<open>daily_summary_by_spot\<close>)\<close>

record spot_summary =
  s_transactions :: int
  s_revenue :: int
  s_returns :: int
  s_returns_sum :: int

text \<open>\<^verbatim>\<open>for row in rows\<close>: a list yields its elements, a string its characters, a dict its
  keys; nothing else can be iterated.\<close>

fun iterate :: "json \<Rightarrow> py_error + json list" where
  "iterate (JList xs) = Inr xs"
| "iterate (JStr s) = Inr (map (\<lambda>c. JStr [c]) s)"
| "iterate (JDict d) = Inr (map (\<lambda>(k, v). JStr k) d)"
| "iterate v = Inl TypeError"

definition int_or_zero :: "pyenv \<Rightarrow> json \<Rightarrow> json \<Rightarrow> py_error + int" where
  "int_or_zero env a b = py_int env (py_or (py_or a b) (JInt 0))"

fun official_rows ::
  "pyenv \<Rightarrow> json list \<Rightarrow> (string \<times> spot_summary) list \<Rightarrow> py_error + (string \<times> spot_summary) list" where
  "official_rows env [] summary = Inr summary"
| "official_rows env (row # rows) summary =
     (case row of
        JDict d \<Rightarrow>
          (let spot_id = str_or_empty env (py_or (dict_get d ''spot_id'') (dict_get d ''id'')) in
           if spot_id = [] then official_rows env rows summary
           else
             bnd (int_or_zero env (dict_get d ''transactions_count'') (dict_get d ''count'')) (\<lambda>t.
             bnd (int_or_zero env (dict_get d ''revenue'') (dict_get d ''sum'')) (\<lambda>r.
             bnd (py_int env (py_or (dict_get d ''returns_count'') (JInt 0))) (\<lambda>rc.
             bnd (py_int env (py_or (dict_get d ''returns_sum'') (JInt 0))) (\<lambda>rs.
               official_rows env rows
                 (AList.update spot_id
                    \<lparr>s_transactions = t, s_revenue = r, s_returns = rc, s_returns_sum = rs\<rparr>
                    summary))))))
      | _ \<Rightarrow> official_rows env rows summary)"

text \<open>The summary read off the stored aggregate; empty when there is nothing usable.\<close>

definition official_summary ::
  "pyenv \<Rightarrow> date \<Rightarrow> AggregateReport list \<Rightarrow> py_error + (string \<times> spot_summary) list" where
  "official_summary env report_date reports =
     (case first (\<lambda>r. ar_date r = report_date) reports of
        None \<Rightarrow> Inr []
      | Some spots_report \<Rightarrow>
          (case ar_raw spots_report of
             JDict raw \<Rightarrow>
               (let rows0 = dict_get_default raw ''response'' (JList []);
                    rows = (case rows0 of JDict d \<Rightarrow> dict_get_default d ''spots'' (JList [])
                            | _ \<Rightarrow> rows0)
                in bnd (iterate rows) (\<lambda>rs. official_rows env rs []))
           | _ \<Rightarrow> Inr []))"

definition add_transaction :: "(string \<times> spot_summary) list \<Rightarrow> Transaction \<Rightarrow> (string \<times> spot_summary) list" where
  "add_transaction summary tx =
     (let key = (if tx_spot_id tx \<noteq> [] then tx_spot_id tx else ''unknown'');
          item = (case map_of summary key of
                    Some i \<Rightarrow> i
                  | None \<Rightarrow> \<lparr>s_transactions = 0, s_revenue = 0, s_returns = 0, s_returns_sum = 0\<rparr>);
          is_return = (tx_status tx = Some 3 \<or> tx_sum tx < 0)
      in AList.update key
           \<lparr>s_transactions = s_transactions item + 1,
            s_revenue = s_revenue item + tx_sum tx,
            s_returns = s_returns item + (if is_return then 1 else 0),
            s_returns_sum = s_returns_sum item + (if is_return then tx_sum tx else 0)\<rparr>
           summary)"

definition fallback_summary :: "pyenv \<Rightarrow> date \<Rightarrow> Transaction list \<Rightarrow> (string \<times> spot_summary) list" where
  "fallback_summary env report_date txs =
     foldl add_transaction [] (filter (on_date env report_date) txs)"

definition daily_summary_by_spot :: "pyenv \<Rightarrow> date \<Rightarrow> db \<Rightarrow> py_error + (string \<times> spot_summary) list" where
  "daily_summary_by_spot env report_date s =
     bnd (official_summary env report_date (spots_sales_reports s)) (\<lambda>summary.
       if summary \<noteq> [] then Inr summary
       else Inr (fallback_summary env report_date (transactions s)))"

section \<open>Auxiliary definitions\<close>

text \<open>An issue is fresh for a date and a list of ignored keys when it is on the date, not
  ignored, and its key is none of them.\<close>

definition fresh :: "date \<Rightarrow> (string \<times> json) list \<Rightarrow> DataIssue \<Rightarrow> bool" where
  "fresh d ign i \<longleftrightarrow>
     di_date i = d \<and> \<not> di_ignored i \<and> (\<exists>k. issue_key i = Inr k \<and> k \<notin> set ign)"

text \<open>
  A concrete environment and database for the example runs: strings of decimal digits are
  the numerals, the time zone is UTC, and all instants are in January 1970.
\<close>

definition digit_value :: "char \<Rightarrow> nat option" where
  "digit_value c = map_of (zip ''0123456789'' [0, 1, 2, 3, 4, 5, 6, 7, 8, 9]) c"

definition parse_digits :: "string \<Rightarrow> int option" where
  "parse_digits s =
     (if s \<noteq> [] \<and> list_all (\<lambda>c. digit_value c \<noteq> None) s
      then Some (foldl (\<lambda>n c. 10 * n + int (the (digit_value c))) 0 s) else None)"

definition env0 :: pyenv where
  "env0 = \<lparr>int_of_str = parse_digits,
           float_of_str = (\<lambda>s. map_option (\<lambda>n. Fin (of_int n)) (parse_digits s)),
           repr_of = (\<lambda>v. ''<repr>''),
           local_date = (\<lambda>t. Date 1970 1 (nat (t div 86400000000) + 1)),
           local_text = (\<lambda>t. ''1970-01-01 00:00'')\<rparr>"

definition demo_tx :: "string \<Rightarrow> int \<Rightarrow> int \<Rightarrow> int \<Rightarrow> int \<Rightarrow> int \<Rightarrow> string \<Rightarrow> Transaction" where
  "demo_tx tid start status amount payed cash spot =
     \<lparr>tx_transaction_id = tid, tx_date_start = Some start, tx_date_close = None,
      tx_status = Some status, tx_sum = amount, tx_payed_sum = payed, tx_payed_cash = cash,
      tx_payed_card = 0, tx_payed_bonus = 0, tx_payed_third_party = 0, tx_payed_cert = 0,
      tx_spot_id = spot, tx_table_id = [], tx_user_id = [], tx_client_id = [],
      tx_service_mode = [], tx_processing_status = [], tx_raw = JDict []\<rparr>"

definition demo_db :: db where
  "demo_db =
     \<lparr>spots = [],
      transactions =
        [demo_tx ''T1'' 90000000000 2 0 0 0 ''1'',
         demo_tx ''T2'' 91000000000 2 500 500 400 ''1'',
         demo_tx ''T3'' 92000000000 3 700 700 600 [],
         demo_tx ''T4'' 180000000000 2 0 0 0 ''2''],
      payments_reports = [], products_sales_reports = [], spots_sales_reports = [],
      daily_reports = [],
      data_issues =
        [\<lparr>di_date = Date 1970 1 2, di_issue_type = ''payment_mismatch'', di_severity = 2,
          di_message = Msg_payment_mismatch ''T2'',
          di_context = JDict [(''transaction_id'', JStr ''T2''), (''payed_sum'', JInt 500),
                              (''payed_parts'', JInt 400)],
          di_ignored = True, di_ignored_at = Some 100000000000\<rparr>,
         \<lparr>di_date = Date 1970 1 2, di_issue_type = ''zero_or_negative_sum'', di_severity = 2,
          di_message = Msg_zero_or_negative_sum ''T0'',
          di_context = JDict [(''transaction_id'', JStr ''T0''), (''sum'', JInt 0)],
          di_ignored = False, di_ignored_at = None\<rparr>,
         \<lparr>di_date = Date 1970 1 3, di_issue_type = ''zero_or_negative_sum'', di_severity = 2,
          di_message = Msg_zero_or_negative_sum ''T4'',
          di_context = JDict [(''transaction_id'', JStr ''T4''), (''sum'', JInt 0)],
          di_ignored = False, di_ignored_at = None\<rparr>],
      insights = []\<rparr>"

definition demo_issues :: "DataIssue list" where
  "demo_issues =
     [new_issue (Date 1970 1 2) ''zero_or_negative_sum'' 2 (Msg_zero_or_negative_sum ''T1'')
        (JDict [(''transaction_id'', JStr ''T1''), (''sum'', JInt 0)]),
      new_issue (Date 1970 1 2) ''payment_mismatch'' 2 (Msg_payment_mismatch ''T3'')
        (JDict [(''transaction_id'', JStr ''T3''), (''payed_sum'', JInt 700),
                (''payed_parts'', JInt 600)])]"


text \<open>
  The grouping the specification describes for the fallback of \<open>daily_summary_by_spot\<close>,
  stated on its own, to compare the loop with: the key of a transaction, what counts as a
  return, and the summary of the transactions of one key.
\<close>

definition spot_key :: "Transaction \<Rightarrow> string" where
  "spot_key tx = (if tx_spot_id tx = [] then ''unknown'' else tx_spot_id tx)"

definition is_return :: "Transaction \<Rightarrow> bool" where
  "is_return tx \<longleftrightarrow> tx_status tx = Some 3 \<or> tx_sum tx < 0"

definition group_summary :: "Transaction list \<Rightarrow> spot_summary option" where
  "group_summary g =
     (if g = [] then None
      else Some \<lparr>s_transactions = int (length g),
                 s_revenue = sum_list (map tx_sum g),
                 s_returns = int (length (filter is_return g)),
                 s_returns_sum = sum_list (map tx_sum (filter is_return g))\<rparr>)"

text \<open>
  An example client and transport: the transactions and payments endpoints answer, every
  other request fails. The second entry has no identifier; the last one is already stored.
\<close>

definition client0 :: PosterClient where
  "client0 = \<lparr>base_url = ''https://demo.joinposter.com/api'', token = ''t0ken'',
               auth_style = ''query_token'', timeout = 20\<rparr>"

definition demo_items :: "json list" where
  "demo_items =
     [JDict [(''transaction_id'', JInt 101), (''date_start'', JStr ''90000000''),
             (''date_close'', JInt 0), (''status'', JStr ''2''), (''sum'', JStr ''1500''),
             (''payed_sum'', JInt 1500), (''payed_cash'', JInt 1500), (''spot_id'', JInt 1)],
      JDict [(''sum'', JInt 700), (''status'', JInt 2)],
      JDict [(''transaction_id'', JStr ''T1''), (''date_start'', JStr ''soon''),
             (''date_close'', JInt (- 5)), (''status'', JInt 1), (''sum'', JStr ''n/a'')]]"

definition http0 :: transport where
  "http0 r =
     (if req_url r = ''https://demo.joinposter.com/api/dash.getTransactions''
      then Response 200 (Some (JDict [(''response'', JList demo_items)]))
      else if req_url r = ''https://demo.joinposter.com/api/dash.getPaymentsReport''
      then Response 200 (Some (JDict [(''response'', JList [])]))
      else RequestException)"

text \<open>
  For the upsert loop: the identifiers the fetched entries carry, the relation of a stored
  row to the entry it was written from, and a timestamp field that is non-numeric or not
  positive.
\<close>

definition entry_ids :: "pyenv \<Rightarrow> json list \<Rightarrow> string set" where
  "entry_ids env items = {t. t \<noteq> [] \<and> (\<exists>item \<in> set items. entry_id env item = Inr t)}"

definition stored_from :: "pyenv \<Rightarrow> json list \<Rightarrow> Transaction \<Rightarrow> bool" where
  "stored_from env items r \<longleftrightarrow>
     (\<exists>item \<in> set items. entry_id env item = Inr (tx_transaction_id r)
        \<and> transaction_row env (tx_transaction_id r) item = Inr r)"

definition absent_ms :: "pyenv \<Rightarrow> json \<Rightarrow> bool" where
  "absent_ms env v \<longleftrightarrow>
     py_int env v = Inl TypeError \<or> py_int env v = Inl ValueError
       \<or> (\<exists>ms. py_int env v = Inr ms \<and> ms \<le> 0)"

text \<open>The same transport, with a per-location aggregate that lists no rows.\<close>

definition http1 :: transport where
  "http1 r =
     (if req_url r = ''https://demo.joinposter.com/api/dash.getSpotsSales''
      then Response 200 (Some (JDict [(''response'', JList [])]))
      else http0 r)"

text \<open>
  Two inputs on which the code raises: a stored per-location aggregate whose
  \<open>response\<close> is null, and a transactions payload whose first entry has an infinite start
  timestamp.
\<close>

definition null_aggregate_db :: db where
  "null_aggregate_db =
     demo_db\<lparr>spots_sales_reports :=
       [\<lparr>ar_date = Date 1970 1 2, ar_raw = JDict [(''response'', JNull)]\<rparr>]\<rparr>"

definition infinite_items :: "json list" where
  "infinite_items =
     [JDict [(''transaction_id'', JStr ''A1''), (''date_start'', JFloat NInf), (''sum'', JInt 100)],
      JDict [(''transaction_id'', JStr ''A2''), (''date_start'', JInt 90000000), (''sum'', JInt 5)]]"

definition http2 :: transport where
  "http2 r =
     (if req_url r = ''https://demo.joinposter.com/api/dash.getTransactions''
      then Response 200 (Some (JDict [(''response'', JList infinite_items)]))
      else if req_url r = ''https://demo.joinposter.com/api/dash.getPaymentsReport''
      then Response 200 (Some (JDict [(''response'', JList [])]))
      else RequestException)"

text \<open>
  The exponent and the significand that \<open>fl\<close> gives a nonzero number: \<open>fl x\<close> is
  \<open>fman x * 2 powi fexp x\<close> with the sign of \<open>x\<close>, unless that overflows.
\<close>

definition fexp :: "rat \<Rightarrow> int" where
  "fexp x = max (floor_log2 \<bar>x\<bar> - 52) (- 1074)"

definition fman :: "rat \<Rightarrow> int" where
  "fman x = round_half_even (\<bar>x\<bar> / 2 powi fexp x)"





section \<open>Verified properties\<close>

subsection \<open>The API gateway\<close>

lemma apply_auth_error:
  "apply_auth self params headers = Inl e \<longleftrightarrow>
     e = PosterConfigError \<and> auth_style self \<notin> recognised_styles"
  by (auto simp: apply_auth_def recognised_styles_def)

text \<open>
  Claim C6, as amended. A request raises \<open>PosterConfigError\<close> exactly when the client's
  auth style is none of the three recognised ones. With a recognised style the request is
  sent with the credential injected; it raises \<open>PosterAPIError\<close> exactly when the transport
  call fails, the status is between 400 and 599, or the body is not JSON, and returns the
  parsed body otherwise. A missing or empty base URL, token or auth style is rejected by
  \<open>from_settings\<close>, when the client is built from the settings, not by the request.
\<close>

theorem request_outcomes:
  "(request http self m p ps jb fb = Inl PosterConfigError
      \<longleftrightarrow> auth_style self \<notin> recognised_styles)
   \<and> (auth_style self \<in> recognised_styles \<longrightarrow>
        (\<exists>params headers.
           apply_auth self (case ps of None \<Rightarrow> [] | Some q \<Rightarrow> q) [] = Inr (params, headers)
           \<and> request http self m p ps jb fb =
               (case http (build_request self m p params headers jb fb) of
                  RequestException \<Rightarrow> Inl PosterAPIError
                | Response status body \<Rightarrow>
                    if 400 \<le> status \<and> status < 600 then Inl PosterAPIError
                    else (case body of None \<Rightarrow> Inl PosterAPIError | Some v \<Rightarrow> Inr v))))
   \<and> (from_settings st = Inl PosterConfigError
        \<longleftrightarrow> setting_missing (POSTER_API_BASE_URL st) \<or> setting_missing (POSTER_API_TOKEN st)
             \<or> setting_missing (POSTER_AUTH_STYLE st))"
proof (intro conjI impI)
  show "request http self m p ps jb fb = Inl PosterConfigError
      \<longleftrightarrow> auth_style self \<notin> recognised_styles"
    by (auto simp: request_def apply_auth_def recognised_styles_def Let_def raise_for_status_def
        split: http_outcome.splits option.splits)
next
  assume "auth_style self \<in> recognised_styles"
  then obtain params headers where
    a: "apply_auth self (case ps of None \<Rightarrow> [] | Some q \<Rightarrow> q) [] = Inr (params, headers)"
    by (auto simp: apply_auth_def recognised_styles_def)
  then show "\<exists>params headers.
           apply_auth self (case ps of None \<Rightarrow> [] | Some q \<Rightarrow> q) [] = Inr (params, headers)
           \<and> request http self m p ps jb fb =
               (case http (build_request self m p params headers jb fb) of
                  RequestException \<Rightarrow> Inl PosterAPIError
                | Response status body \<Rightarrow>
                    if 400 \<le> status \<and> status < 600 then Inl PosterAPIError
                    else (case body of None \<Rightarrow> Inl PosterAPIError | Some v \<Rightarrow> Inr v))"
    by (auto simp: request_def Let_def raise_for_status_def split: http_outcome.splits)
next
  show "from_settings st = Inl PosterConfigError
        \<longleftrightarrow> setting_missing (POSTER_API_BASE_URL st) \<or> setting_missing (POSTER_API_TOKEN st)
             \<or> setting_missing (POSTER_AUTH_STYLE st)"
    by (auto simp: from_settings_def missing_settings_def)
qed

theorem request_outcomes_witness:
  "''bearer'' \<in> recognised_styles
   \<and> request (\<lambda>r. if req_headers r = [(''Authorization'', ''Bearer t0ken'')]
                    \<and> req_url r = ''https://demo.joinposter.com/api/dash.getTransactions''
                    \<and> req_method r = ''GET''
                  then Response 200 (Some (JDict [(''response'', JList [])])) else RequestException)
          \<lparr>base_url = ''https://demo.joinposter.com/api/'', token = ''t0ken'',
           auth_style = ''bearer'', timeout = 20\<rparr>
          ''get'' ''/dash.getTransactions'' None None None = Inr (JDict [(''response'', JList [])])"
  using request_outcomes [of "(\<lambda>r. if req_headers r = [(''Authorization'', ''Bearer t0ken'')]
                    \<and> req_url r = ''https://demo.joinposter.com/api/dash.getTransactions''
                    \<and> req_method r = ''GET''
                  then Response 200 (Some (JDict [(''response'', JList [])])) else RequestException)"
          "\<lparr>base_url = ''https://demo.joinposter.com/api/'', token = ''t0ken'',
           auth_style = ''bearer'', timeout = 20\<rparr>" "''get''" "''/dash.getTransactions''" None None None
          "\<lparr>POSTER_API_BASE_URL = None, POSTER_API_TOKEN = None, POSTER_AUTH_STYLE = None\<rparr>"]
  by (simp add: recognised_styles_def apply_auth_def build_request_def rstrip_slash_def
      lstrip_slash_def upper_def upper_char_def)

text \<open>
  Claim C6 as stated fails twice. A client built directly (as the web views do) with an
  empty token and a recognised style sends its request and raises no
  \<open>PosterConfigError\<close>; and a response with status 300, which is not 2xx, and a JSON body
  is returned, not turned into a \<open>PosterAPIError\<close>.
\<close>

theorem request_counterexample:
  "\<not> (request (\<lambda>r. Response 200 (Some (JDict [])))
          \<lparr>base_url = ''https://demo.joinposter.com/api'', token = [],
           auth_style = ''query_token'', timeout = 20\<rparr>
          ''GET'' ''dash.getTransactions'' None None None = Inl PosterConfigError
        \<longleftrightarrow> (''query_token'' \<notin> recognised_styles \<or> ([]::string) = []))
   \<and> \<not> (request (\<lambda>r. Response 300 (Some (JDict [])))
          \<lparr>base_url = ''https://demo.joinposter.com/api'', token = ''t0ken'',
           auth_style = ''bearer'', timeout = 20\<rparr>
          ''GET'' ''dash.getTransactions'' None None None = Inl PosterAPIError
        \<longleftrightarrow> \<not> (200 \<le> (300::int) \<and> (300::int) < 300))"
  by (simp add: request_def apply_auth_def raise_for_status_def recognised_styles_def)

subsection \<open>Sum-monad bookkeeping\<close>

lemma bnd_Inr_iff: "bnd m f = Inr y \<longleftrightarrow> (\<exists>v. m = Inr v \<and> f v = Inr y)"
  by (cases m) (auto simp: bnd_def)

lemma bnd_Inl_iff: "bnd m f = Inl e \<longleftrightarrow> m = Inl e \<or> (\<exists>v. m = Inr v \<and> f v = Inl e)"
  by (cases m) (auto simp: bnd_def)

subsection \<open>The anomaly scanner\<close>

lemma issue_keys_mem:
  "issue_keys xs = Inr ks \<Longrightarrow> x \<in> set xs \<Longrightarrow> \<exists>k \<in> set ks. issue_key x = Inr k"
  by (induction xs arbitrary: ks) (auto simp: bnd_Inr_iff)

lemma issue_key_new_tid:
  "issue_key (new_issue d ty sev msg (JDict ((''transaction_id'', JStr tid) # rest))) = Inr (ty, JStr tid)"
  by (simp add: issue_key_def new_issue_def py_or_def attr_get_def dict_get_def bnd_def)

lemma issue_key_new_empty:
  "issue_key (new_issue d ty sev msg (JDict [])) = Inr (ty, JNull)"
  by (simp add: issue_key_def new_issue_def py_or_def attr_get_def dict_get_def bnd_def)

lemma zero_sum_issues_fresh: "i \<in> set (zero_sum_issues d ign tx) \<Longrightarrow> fresh d ign i"
  by (auto simp: zero_sum_issues_def fresh_def issue_key_new_tid split: if_splits)
     (simp_all add: new_issue_def)

lemma mismatch_issues_fresh: "i \<in> set (mismatch_issues d ign tx) \<Longrightarrow> fresh d ign i"
  by (auto simp: mismatch_issues_def fresh_def issue_key_new_tid split: if_splits)
     (simp_all add: new_issue_def)

lemma table_move_issue_fresh:
  "(''table_move'', JStr (tx_transaction_id tx)) \<notin> set ign
     \<Longrightarrow> fresh d ign (table_move_issue env d tx raw)"
  by (simp add: table_move_issue_def Let_def fresh_def issue_key_new_tid)
     (simp add: new_issue_def)

lemma table_move_issues_fresh:
  "table_move_issues env d ign tx = Inr xs \<Longrightarrow> i \<in> set xs \<Longrightarrow> fresh d ign i"
  by (auto simp: table_move_issues_def bnd_Inr_iff table_move_issue_fresh
      split: json.splits if_splits)

lemma tx_issues_fresh:
  assumes "tx_issues env d ign tx = Inr xs" and "i \<in> set xs"
  shows "fresh d ign i"
  using assms
  by (auto simp: tx_issues_def bnd_Inr_iff
      dest: zero_sum_issues_fresh mismatch_issues_fresh table_move_issues_fresh)

lemma all_tx_issues_fresh:
  "all_tx_issues env d ign txs = Inr xs \<Longrightarrow> i \<in> set xs \<Longrightarrow> fresh d ign i"
  by (induction txs arbitrary: xs) (auto simp: bnd_Inr_iff dest: tx_issues_fresh)

lemma no_transactions_issue_fresh:
  "i \<in> set (no_transactions_issue d ign reports) \<Longrightarrow> fresh d ign i"
  by (auto simp: no_transactions_issue_def fresh_def issue_key_new_empty
      split: option.splits if_splits) (simp_all add: new_issue_def)

lemma computed_issues_fresh:
  assumes "computed_issues env d s = Inr xs" and "i \<in> set xs"
  shows "\<exists>ign. issue_keys (filter (\<lambda>i. di_date i = d \<and> di_ignored i) (data_issues s)) = Inr ign
           \<and> fresh d ign i"
  using assms
  by (auto simp: computed_issues_def bnd_Inr_iff
      dest: all_tx_issues_fresh no_transactions_issue_fresh)

lemma demo_scan:
  "scan_anomalies env0 (Date 1970 1 2) demo_db =
     (demo_db\<lparr>data_issues := [data_issues demo_db ! 0, data_issues demo_db ! 2] @ demo_issues\<rparr>,
      Inr demo_issues)"
  by code_simp

lemma computed_issues_new:
  assumes "computed_issues env d s = Inr xs" and "i \<in> set xs"
  shows "di_date i = d \<and> \<not> di_ignored i"
  using computed_issues_fresh [OF assms] by (auto simp: fresh_def)

lemma scan_anomalies_data_issues:
  "computed_issues env d s = Inr xs \<Longrightarrow>
     scan_anomalies env d s =
       (s\<lparr>data_issues := filter (\<lambda>i. \<not> (di_date i = d \<and> \<not> di_ignored i)) (data_issues s) @ xs\<rparr>,
        Inr xs)"
  by (simp add: scan_anomalies_def)

lemma scan_anomalies_raise:
  "computed_issues env d s = Inl e \<Longrightarrow> scan_anomalies env d s = (s, Inl e)"
  by (simp add: scan_anomalies_def)

text \<open>
  Claim C1. When \<open>scan_anomalies\<close> returns for a date: the ignored rows of that date are
  the ones stored before; every returned issue has a key \<open>(issue_type, transaction
  identifier of the context)\<close>, and it differs from the key of every ignored row of the date;
  and the non-ignored rows of the date are, afterwards, exactly the returned issues, which
  are the freshly computed ones.
\<close>

theorem scan_anomalies_rescan:
  assumes "scan_anomalies env d s = (s', Inr issues)"
  shows "filter (\<lambda>i. di_date i = d \<and> di_ignored i) (data_issues s')
           = filter (\<lambda>i. di_date i = d \<and> di_ignored i) (data_issues s)
       \<and> (\<forall>new \<in> set issues. \<forall>old \<in> set (data_issues s).
             di_date old = d \<and> di_ignored old \<longrightarrow>
               (\<exists>k. issue_key new = Inr k) \<and> issue_key new \<noteq> issue_key old)
       \<and> filter (\<lambda>i. di_date i = d \<and> \<not> di_ignored i) (data_issues s') = issues
       \<and> computed_issues env d s = Inr issues"
proof -
  from assms have c: "computed_issues env d s = Inr issues"
    by (auto simp: scan_anomalies_def split: sum.splits)
  with assms have s': "s' = s\<lparr>data_issues :=
      filter (\<lambda>i. \<not> (di_date i = d \<and> \<not> di_ignored i)) (data_issues s) @ issues\<rparr>"
    by (simp add: scan_anomalies_data_issues)
  have new: "\<And>i. i \<in> set issues \<Longrightarrow> di_date i = d \<and> \<not> di_ignored i"
    using computed_issues_new [OF c] by blast
  have 1: "filter (\<lambda>i. di_date i = d \<and> di_ignored i) (data_issues s')
           = filter (\<lambda>i. di_date i = d \<and> di_ignored i) (data_issues s)"
  proof -
    have "filter (\<lambda>i. di_date i = d \<and> di_ignored i) issues = []"
      using new by (auto simp: filter_empty_conv)
    moreover have "filter (\<lambda>i. di_date i = d \<and> di_ignored i)
                     (filter (\<lambda>i. \<not> (di_date i = d \<and> \<not> di_ignored i)) (data_issues s))
                   = filter (\<lambda>i. di_date i = d \<and> di_ignored i) (data_issues s)"
      by (auto intro: filter_cong)
    ultimately show ?thesis by (simp add: s')
  qed
  have 2: "\<forall>new \<in> set issues. \<forall>old \<in> set (data_issues s).
             di_date old = d \<and> di_ignored old \<longrightarrow>
               (\<exists>k. issue_key new = Inr k) \<and> issue_key new \<noteq> issue_key old"
  proof (intro ballI impI)
    fix new old
    assume n: "new \<in> set issues" and o: "old \<in> set (data_issues s)"
      and od: "di_date old = d \<and> di_ignored old"
    from computed_issues_fresh [OF c n] obtain ign k where
      ign: "issue_keys (filter (\<lambda>i. di_date i = d \<and> di_ignored i) (data_issues s)) = Inr ign"
      and k: "issue_key new = Inr k" "k \<notin> set ign"
      by (auto simp: fresh_def)
    from o od have "old \<in> set (filter (\<lambda>i. di_date i = d \<and> di_ignored i) (data_issues s))"
      by simp
    from issue_keys_mem [OF ign this] obtain k' where "k' \<in> set ign" "issue_key old = Inr k'"
      by blast
    with k show "(\<exists>k. issue_key new = Inr k) \<and> issue_key new \<noteq> issue_key old"
      by auto
  qed
  have 3: "filter (\<lambda>i. di_date i = d \<and> \<not> di_ignored i) (data_issues s') = issues"
  proof -
    have "filter (\<lambda>i. di_date i = d \<and> \<not> di_ignored i) issues = issues"
      using new by (auto simp: filter_id_conv)
    moreover have "filter (\<lambda>i. di_date i = d \<and> \<not> di_ignored i)
                     (filter (\<lambda>i. \<not> (di_date i = d \<and> \<not> di_ignored i)) (data_issues s)) = []"
      by (auto simp: filter_empty_conv)
    ultimately show ?thesis by (simp add: s')
  qed
  from 1 2 3 c show ?thesis by blast
qed

theorem scan_anomalies_rescan_witness:
  "scan_anomalies env0 (Date 1970 1 2) demo_db =
     (demo_db\<lparr>data_issues := [data_issues demo_db ! 0, data_issues demo_db ! 2] @ demo_issues\<rparr>,
      Inr demo_issues)
   \<and> filter (\<lambda>i. di_date i = Date 1970 1 2 \<and> di_ignored i)
        ([data_issues demo_db ! 0, data_issues demo_db ! 2] @ demo_issues)
       = filter (\<lambda>i. di_date i = Date 1970 1 2 \<and> di_ignored i) (data_issues demo_db)
   \<and> filter (\<lambda>i. di_date i = Date 1970 1 2 \<and> \<not> di_ignored i)
        ([data_issues demo_db ! 0, data_issues demo_db ! 2] @ demo_issues) = demo_issues
   \<and> computed_issues env0 (Date 1970 1 2) demo_db = Inr demo_issues"
  using scan_anomalies_rescan [OF demo_scan] demo_scan by simp

text \<open>
  Claim C10. Whatever \<open>scan_anomalies\<close> does, raise included, the rows of \<open>DataIssue\<close>
  that are for another date or ignored are the same before and after, the other rows are
  the returned issues (or untouched after a raise), and every other table is unchanged.
\<close>

theorem scan_anomalies_frame:
  "filter (\<lambda>i. \<not> (di_date i = d \<and> \<not> di_ignored i)) (data_issues (fst (scan_anomalies env d s)))
     = filter (\<lambda>i. \<not> (di_date i = d \<and> \<not> di_ignored i)) (data_issues s)
   \<and> filter (\<lambda>i. di_date i = d \<and> \<not> di_ignored i) (data_issues (fst (scan_anomalies env d s)))
     = (case snd (scan_anomalies env d s) of
          Inr issues \<Rightarrow> issues
        | Inl e \<Rightarrow> filter (\<lambda>i. di_date i = d \<and> \<not> di_ignored i) (data_issues s))
   \<and> transactions (fst (scan_anomalies env d s)) = transactions s
   \<and> daily_reports (fst (scan_anomalies env d s)) = daily_reports s
   \<and> spots (fst (scan_anomalies env d s)) = spots s
   \<and> insights (fst (scan_anomalies env d s)) = insights s
   \<and> payments_reports (fst (scan_anomalies env d s)) = payments_reports s
   \<and> products_sales_reports (fst (scan_anomalies env d s)) = products_sales_reports s
   \<and> spots_sales_reports (fst (scan_anomalies env d s)) = spots_sales_reports s"
proof (cases "computed_issues env d s")
  case (Inl e)
  then show ?thesis by (simp add: scan_anomalies_raise)
next
  case (Inr xs)
  have new: "\<And>i. i \<in> set xs \<Longrightarrow> di_date i = d \<and> \<not> di_ignored i"
    using computed_issues_new [OF Inr] by blast
  have a: "filter (\<lambda>i. \<not> (di_date i = d \<and> \<not> di_ignored i)) xs = []"
    using new by (auto simp: filter_empty_conv)
  have b: "filter (\<lambda>i. di_date i = d \<and> \<not> di_ignored i) xs = xs"
    using new by (auto simp: filter_id_conv)
  have c: "filter (\<lambda>i. di_date i = d \<and> \<not> di_ignored i)
             (filter (\<lambda>i. \<not> (di_date i = d \<and> \<not> di_ignored i)) (data_issues s)) = []"
    by (auto simp: filter_empty_conv)
  show ?thesis
    using a b c by (simp add: scan_anomalies_data_issues [OF Inr])
qed

theorem scan_anomalies_frame_witness:
  "filter (\<lambda>i. \<not> (di_date i = Date 1970 1 2 \<and> \<not> di_ignored i))
      (data_issues (fst (scan_anomalies env0 (Date 1970 1 2) demo_db)))
     = [data_issues demo_db ! 0, data_issues demo_db ! 2]
   \<and> transactions (fst (scan_anomalies env0 (Date 1970 1 2) demo_db)) = transactions demo_db"
proof -
  have "filter (\<lambda>i. \<not> (di_date i = Date 1970 1 2 \<and> \<not> di_ignored i)) (data_issues demo_db)
          = [data_issues demo_db ! 0, data_issues demo_db ! 2]"
    by (simp add: demo_db_def)
  with scan_anomalies_frame [of "Date 1970 1 2" env0 demo_db] show ?thesis by simp
qed

subsection \<open>The summary aggregator\<close>

lemma map_of_add_transaction:
  "map_of (add_transaction summary tx) k =
     (if spot_key tx = k
      then Some (let item = (case map_of summary k of Some i \<Rightarrow> i
                   | None \<Rightarrow> \<lparr>s_transactions = 0, s_revenue = 0, s_returns = 0, s_returns_sum = 0\<rparr>)
                 in \<lparr>s_transactions = s_transactions item + 1,
                     s_revenue = s_revenue item + tx_sum tx,
                     s_returns = s_returns item + (if is_return tx then 1 else 0),
                     s_returns_sum = s_returns_sum item + (if is_return tx then tx_sum tx else 0)\<rparr>)
      else map_of summary k)"
  by (auto simp: add_transaction_def spot_key_def is_return_def Let_def update_conv')

lemma map_of_foldl_add_transaction:
  "map_of (foldl add_transaction [] ys) k = group_summary (filter (\<lambda>tx. spot_key tx = k) ys)"
proof (induction ys rule: rev_induct)
  case Nil
  show ?case by (simp add: group_summary_def)
next
  case (snoc x xs)
  show ?case
  proof (cases "spot_key x = k")
    case False
    with snoc show ?thesis by (simp add: map_of_add_transaction)
  next
    case True
    show ?thesis
    proof (cases "filter (\<lambda>tx. spot_key tx = k) xs = []")
      case e: True
      with snoc have "map_of (foldl add_transaction [] xs) k = None"
        by (simp add: group_summary_def)
      with True e show ?thesis
        by (simp add: map_of_add_transaction group_summary_def)
    next
      case ne: False
      with snoc have "map_of (foldl add_transaction [] xs) k =
          Some \<lparr>s_transactions = int (length (filter (\<lambda>tx. spot_key tx = k) xs)),
                 s_revenue = sum_list (map tx_sum (filter (\<lambda>tx. spot_key tx = k) xs)),
                 s_returns = int (length (filter is_return (filter (\<lambda>tx. spot_key tx = k) xs))),
                 s_returns_sum = sum_list (map tx_sum (filter is_return (filter (\<lambda>tx. spot_key tx = k) xs)))\<rparr>"
        by (simp add: group_summary_def)
      with True ne show ?thesis
        by (simp add: map_of_add_transaction group_summary_def)
    qed
  qed
qed

lemma official_summary_no_row:
  "first (\<lambda>r. ar_date r = d) reports = None \<Longrightarrow> official_summary env d reports = Inr []"
  by (simp add: official_summary_def)

text \<open>
  The fallback itself. When no \<open>SpotsSalesReport\<close> row exists for the date, or the scan of
  the stored aggregate ends with an empty summary, \<open>daily_summary_by_spot\<close> returns the
  summary of the stored transactions that start on the date: under each key (the
  \<open>spot_id\<close>, or \<open>unknown\<close> when it is empty) the number of transactions and the sum of
  their sums, and as returns the number and the sum of those with status 3 or a negative
  sum; a key without transactions is absent.
\<close>

theorem daily_summary_fallback:
  assumes "first (\<lambda>r. ar_date r = d) (spots_sales_reports s) = None
           \<or> official_summary env d (spots_sales_reports s) = Inr []"
  shows "daily_summary_by_spot env d s = Inr (fallback_summary env d (transactions s))
       \<and> (\<forall>k. map_of (fallback_summary env d (transactions s)) k
              = group_summary (filter (\<lambda>tx. on_date env d tx \<and> spot_key tx = k) (transactions s)))"
proof -
  from assms have "official_summary env d (spots_sales_reports s) = Inr []"
    by (auto simp: official_summary_no_row)
  then have 1: "daily_summary_by_spot env d s = Inr (fallback_summary env d (transactions s))"
    by (simp add: daily_summary_by_spot_def bnd_def)
  have 2: "map_of (fallback_summary env d (transactions s)) k
              = group_summary (filter (\<lambda>tx. on_date env d tx \<and> spot_key tx = k) (transactions s))" for k
  proof -
    have "filter (\<lambda>tx. spot_key tx = k) (filter (on_date env d) (transactions s))
          = filter (\<lambda>tx. on_date env d tx \<and> spot_key tx = k) (transactions s)"
      by (simp add: conj_commute)
    then show ?thesis
      by (simp add: fallback_summary_def map_of_foldl_add_transaction)
  qed
  from 1 2 show ?thesis by blast
qed

lemma demo_summary:
  "daily_summary_by_spot env0 (Date 1970 1 2) demo_db =
     Inr [(''1'', \<lparr>s_transactions = 2, s_revenue = 500, s_returns = 0, s_returns_sum = 0\<rparr>),
          (''unknown'', \<lparr>s_transactions = 1, s_revenue = 700, s_returns = 1, s_returns_sum = 700\<rparr>)]"
  by code_simp

theorem daily_summary_fallback_witness:
  "first (\<lambda>r. ar_date r = Date 1970 1 2) (spots_sales_reports demo_db) = None
   \<and> daily_summary_by_spot env0 (Date 1970 1 2) demo_db
       = Inr (fallback_summary env0 (Date 1970 1 2) (transactions demo_db))
   \<and> fallback_summary env0 (Date 1970 1 2) (transactions demo_db) =
       [(''1'', \<lparr>s_transactions = 2, s_revenue = 500, s_returns = 0, s_returns_sum = 0\<rparr>),
        (''unknown'', \<lparr>s_transactions = 1, s_revenue = 700, s_returns = 1, s_returns_sum = 700\<rparr>)]
   \<and> group_summary (filter (\<lambda>tx. on_date env0 (Date 1970 1 2) tx \<and> spot_key tx = ''unknown'')
        (transactions demo_db))
       = Some \<lparr>s_transactions = 1, s_revenue = 700, s_returns = 1, s_returns_sum = 700\<rparr>"
proof -
  have h: "first (\<lambda>r. ar_date r = Date 1970 1 2) (spots_sales_reports demo_db) = None"
    by (simp add: demo_db_def first_def)
  note t = daily_summary_fallback [OF disjI1, OF h, of env0]
  from t have a: "daily_summary_by_spot env0 (Date 1970 1 2) demo_db
       = Inr (fallback_summary env0 (Date 1970 1 2) (transactions demo_db))"
    by blast
  from t have b: "map_of (fallback_summary env0 (Date 1970 1 2) (transactions demo_db)) ''unknown''
      = group_summary (filter (\<lambda>tx. on_date env0 (Date 1970 1 2) tx \<and> spot_key tx = ''unknown'')
        (transactions demo_db))"
    by blast
  from a demo_summary have c: "fallback_summary env0 (Date 1970 1 2) (transactions demo_db) =
       [(''1'', \<lparr>s_transactions = 2, s_revenue = 500, s_returns = 0, s_returns_sum = 0\<rparr>),
        (''unknown'', \<lparr>s_transactions = 1, s_revenue = 700, s_returns = 1, s_returns_sum = 700\<rparr>)]"
    by simp
  from b have d: "group_summary (filter (\<lambda>tx. on_date env0 (Date 1970 1 2) tx \<and> spot_key tx = ''unknown'')
        (transactions demo_db))
       = Some \<lparr>s_transactions = 1, s_revenue = 700, s_returns = 1, s_returns_sum = 700\<rparr>"
    unfolding c by simp
  from h a c d show ?thesis by blast
qed

subsection \<open>The importer: stages of a run that returns\<close>

lemma import_fetched_Inr:
  assumes "import_fetched env d tf pf prf ssf sf s = (s', Inr n)"
  obtains t p ps ss sp where
    "tf = Inr t" "pf = Inr p"
    "(case prf of Some f \<Rightarrow> or_empty f | None \<Rightarrow> Inr (JDict [])) = Inr ps"
    "or_empty ssf = Inr ss"
    "sync_spots env sf (spots s) = (sp, Inr ())"
    "finish_import env d t p ps ss (s\<lparr>spots := sp\<rparr>) = (s', Inr n)"
  using assms unfolding import_fetched_def
  by (auto split: sum.splits prod.splits)

lemma finish_import_Inr:
  assumes "finish_import env d t p ps ss s = (s', Inr n)"
  obtains raw tbl pr psr ssr rev avg dr where
    "raw_totals env (extract_transactions t) = Inr raw"
    "upsert_transactions env (extract_transactions t) (transactions s) = (tbl, Inr ())"
    "upsert_report d p (payments_reports s) = Inr pr"
    "(if truthy ps then upsert_report d ps (products_sales_reports s)
      else Inr (products_sales_reports s)) = Inr psr"
    "(if truthy ss then upsert_report d ss (spots_sales_reports s)
      else Inr (spots_sales_reports s)) = Inr ssr"
    "reconcile env ss raw = Inr (n, rev, avg)"
    "update_or_create (\<lambda>r. dr_date r = d)
       \<lparr>dr_date = d, dr_transactions_count = n, dr_revenue = rev, dr_avg_check = avg,
        dr_raw_transactions = t, dr_raw_payments = p, dr_raw_products_sales = ps\<rparr>
       (daily_reports s) = Inr dr"
    "s' = s\<lparr>transactions := tbl, payments_reports := pr, products_sales_reports := psr,
             spots_sales_reports := ssr, daily_reports := dr\<rparr>"
  using assms unfolding finish_import_def Let_def
  by (auto split: sum.splits prod.splits cong: if_cong)

lemma update_or_create_key:
  assumes "update_or_create (\<lambda>r. key r = k) new rows = Inr rows'"
    and "key new = k" and "distinct (map key rows)"
  shows "distinct (map key rows')"
    and "key ` set rows' = insert k (key ` set rows)"
    and "new \<in> set rows'"
    and "\<And>r. r \<in> set rows' \<Longrightarrow> r = new \<or> (r \<in> set rows \<and> key r \<noteq> k)"
    and "\<And>r. r \<in> set rows \<Longrightarrow> key r \<noteq> k \<Longrightarrow> r \<in> set rows'"
proof -
  let ?m = "map (\<lambda>x. if key x = k then new else x) rows"
  have keys: "map key ?m = map key rows"
    using assms(2) by (induction rows) auto
  consider (create) "filter (\<lambda>r. key r = k) rows = []" "rows' = rows @ [new]"
    | (update) r where "filter (\<lambda>r. key r = k) rows = [r]" "rows' = ?m"
    using assms(1) by (auto simp: update_or_create_def split: list.splits)
  then have all: "distinct (map key rows') \<and> key ` set rows' = insert k (key ` set rows)
      \<and> new \<in> set rows'
      \<and> (\<forall>r \<in> set rows'. r = new \<or> (r \<in> set rows \<and> key r \<noteq> k))
      \<and> (\<forall>r \<in> set rows. key r \<noteq> k \<longrightarrow> r \<in> set rows')"
  proof cases
    case create
    from create(1) have nk: "\<forall>r \<in> set rows. key r \<noteq> k"
      by (auto simp: filter_empty_conv)
    with create(2) assms(2,3) show ?thesis by auto
  next
    case update
    then have "r \<in> set (filter (\<lambda>r. key r = k) rows)" by simp
    then have rin: "r \<in> set rows" "key r = k" by auto
    have mk: "map key rows' = map key rows" unfolding update(2) by (rule keys)
    have d: "distinct (map key rows')" using mk assms(3) by simp
    have "set (map key rows') = set (map key rows)" using mk by simp
    then have ks: "key ` set rows' = insert k (key ` set rows)" using rin by auto
    have n: "new \<in> set rows'" using update(2) rin by (auto simp: image_iff intro!: bexI [of _ r])
    have a: "\<forall>x \<in> set rows'. x = new \<or> (x \<in> set rows \<and> key x \<noteq> k)"
      using update(2) by auto
    have b: "\<forall>x \<in> set rows. key x \<noteq> k \<longrightarrow> x \<in> set rows'"
      using update(2) by (auto simp: image_iff)
    from d ks n a b show ?thesis by blast
  qed
  from all show "distinct (map key rows')" by blast
  from all show "key ` set rows' = insert k (key ` set rows)" by blast
  from all show "new \<in> set rows'" by blast
  from all show "\<And>r. r \<in> set rows' \<Longrightarrow> r = new \<or> (r \<in> set rows \<and> key r \<noteq> k)" by blast
  from all show "\<And>r. r \<in> set rows \<Longrightarrow> key r \<noteq> k \<Longrightarrow> r \<in> set rows'" by blast
qed

lemma transaction_row_fields:
  assumes "transaction_row env tid item = Inr r"
  shows "tx_transaction_id r = tid \<and> tx_raw r = item
       \<and> field_ms env item ''date_start'' = Inr (tx_date_start r)
       \<and> field_ms env item ''date_close'' = Inr (tx_date_close r)"
  using assms unfolding transaction_row_def
  by (auto simp: bnd_Inr_iff)

lemma entry_ids_Cons:
  "entry_ids env (item # items) =
     (case entry_id env item of Inr t \<Rightarrow> (if t = [] then {} else {t}) | Inl e \<Rightarrow> {})
       \<union> entry_ids env items"
  by (auto simp: entry_ids_def split: sum.splits)

lemma upsert_transactions_Inr:
  assumes "upsert_transactions env items tbl = (tbl', Inr u)"
    and "distinct (map tx_transaction_id tbl)"
  shows "distinct (map tx_transaction_id tbl')
       \<and> tx_transaction_id ` set tbl' = tx_transaction_id ` set tbl \<union> entry_ids env items
       \<and> (\<forall>r \<in> set tbl'. if tx_transaction_id r \<in> entry_ids env items
                            then stored_from env items r else r \<in> set tbl)"
  using assms
proof (induction items arbitrary: tbl)
  case Nil
  then show ?case by (simp add: entry_ids_def)
next
  case (Cons item items)
  from Cons.prems(1) obtain tid where tid: "entry_id env item = Inr tid"
    by (auto split: sum.splits)
  show ?case
  proof (cases "tid = []")
    case True
    with Cons.prems tid have "upsert_transactions env items tbl = (tbl', Inr u)" by simp
    note ih = Cons.IH [OF this Cons.prems(2)]
    have ids: "entry_ids env (item # items) = entry_ids env items"
      using tid True by (simp add: entry_ids_Cons)
    have mono: "\<And>r. stored_from env items r \<Longrightarrow> stored_from env (item # items) r"
      by (auto simp: stored_from_def)
    have "\<forall>r \<in> set tbl'. if tx_transaction_id r \<in> entry_ids env (item # items)
                            then stored_from env (item # items) r else r \<in> set tbl"
      using ih mono unfolding ids by (metis (full_types))
    with ih ids show ?thesis by simp
  next
    case False
    with Cons.prems(1) tid obtain row tbl1 where
      row: "transaction_row env tid item = Inr row"
      and uc: "update_or_create (\<lambda>r. tx_transaction_id r = tid) row tbl = Inr tbl1"
      and rest: "upsert_transactions env items tbl1 = (tbl', Inr u)"
      by (auto simp: bnd_Inr_iff split: sum.splits)
    from transaction_row_fields [OF row] have rid: "tx_transaction_id row = tid" by simp
    note k = update_or_create_key [OF uc rid Cons.prems(2)]
    note ih = Cons.IH [OF rest k(1)]
    have ids: "entry_ids env (item # items) = insert tid (entry_ids env items)"
      using tid False by (auto simp: entry_ids_Cons)
    have sf: "stored_from env (item # items) row"
      using tid row rid by (auto simp: stored_from_def)
    have mono: "\<And>r. stored_from env items r \<Longrightarrow> stored_from env (item # items) r"
      by (auto simp: stored_from_def)
    have 1: "distinct (map tx_transaction_id tbl')" using ih by blast
    have 2: "tx_transaction_id ` set tbl'
               = tx_transaction_id ` set tbl \<union> entry_ids env (item # items)"
      using ih k(2) ids by auto
    have 3: "\<forall>r \<in> set tbl'. if tx_transaction_id r \<in> entry_ids env (item # items)
                            then stored_from env (item # items) r else r \<in> set tbl"
    proof
      fix r assume r: "r \<in> set tbl'"
      from ih r have c: "if tx_transaction_id r \<in> entry_ids env items
                         then stored_from env items r else r \<in> set tbl1" by blast
      show "if tx_transaction_id r \<in> entry_ids env (item # items)
            then stored_from env (item # items) r else r \<in> set tbl"
      proof (cases "tx_transaction_id r \<in> entry_ids env items")
        case True
        with c mono ids show ?thesis by auto
      next
        case False
        with c have "r \<in> set tbl1" by simp
        from k(4) [OF this] show ?thesis using False ids sf rid by auto
      qed
    qed
    from 1 2 3 show ?thesis by blast
  qed
qed

lemma parse_ms_absent:
  "parse_ms env v = Inr None \<longleftrightarrow>
     py_int env v = Inl TypeError \<or> py_int env v = Inl ValueError
       \<or> (\<exists>ms. py_int env v = Inr ms \<and> ms \<le> 0)"
  by (cases "py_int env v")
     (auto simp: parse_ms_def bnd_def split: sum.splits py_error.splits)

lemma import_daily_Inr:
  assumes "import_daily env http client d inc s = (s', Inr n)"
  obtains t p ps ss sp where
    "get http client ''dash.getTransactions'' (date_params ''dateFrom'' ''dateTo'' d) = Inr t"
    "get http client ''dash.getPaymentsReport'' (date_params ''date_from'' ''date_to'' d) = Inr p"
    "or_empty (get http client ''dash.getSpotsSales'' (date_params ''dateFrom'' ''dateTo'' d)) = Inr ss"
    "finish_import env d t p ps ss (s\<lparr>spots := sp\<rparr>) = (s', Inr n)"
  using assms unfolding import_daily_def
  by (elim import_fetched_Inr) blast

lemma absent_ms_iff: "absent_ms env v \<longleftrightarrow> parse_ms env v = Inr None"
  by (simp add: absent_ms_def parse_ms_absent)

lemma entry_id_dict:
  assumes "entry_id env item = Inr tid"
  shows "\<exists>dd. item = JDict dd"
  using assms
  by (cases item) (auto simp: entry_id_def field_str_def attr_get_def bnd_def)

lemma transaction_row_timestamps:
  assumes "transaction_row env tid (JDict dd) = Inr r"
  shows "parse_ms env (dict_get dd ''date_start'') = Inr (tx_date_start r)"
    and "parse_ms env (dict_get dd ''date_close'') = Inr (tx_date_close r)"
    and "tx_raw r = JDict dd"
  using transaction_row_fields [OF assms]
  by (simp_all add: field_ms_def attr_get_def bnd_def)

lemma stored_from_timestamps:
  assumes "stored_from env items r"
  shows "\<exists>dd. tx_raw r = JDict dd \<and> JDict dd \<in> set items
           \<and> (tx_date_start r = None \<longleftrightarrow> absent_ms env (dict_get dd ''date_start''))
           \<and> (tx_date_close r = None \<longleftrightarrow> absent_ms env (dict_get dd ''date_close''))"
proof -
  from assms have "\<exists>item \<in> set items. entry_id env item = Inr (tx_transaction_id r)
        \<and> transaction_row env (tx_transaction_id r) item = Inr r"
    by (simp only: stored_from_def)
  then obtain item where item: "item \<in> set items"
    "entry_id env item = Inr (tx_transaction_id r)"
    "transaction_row env (tx_transaction_id r) item = Inr r"
    by (elim bexE conjE)
  from entry_id_dict [OF item(2)] obtain dd where dd: "item = JDict dd" by blast
  note f = transaction_row_timestamps [OF item(3) [unfolded dd]]
  have 1: "tx_date_start r = None \<longleftrightarrow> absent_ms env (dict_get dd ''date_start'')"
    unfolding absent_ms_iff f(1) by simp
  have 2: "tx_date_close r = None \<longleftrightarrow> absent_ms env (dict_get dd ''date_close'')"
    unfolding absent_ms_iff f(2) by simp
  from item(1) have 3: "JDict dd \<in> set items" unfolding dd .
  show ?thesis
    by (rule exI [of _ dd]) (intro conjI f(3) 3 1 2)
qed

text \<open>
  The upsert loop of a run that returns, on a table whose identifiers are distinct: the
  identifiers stay distinct (no row is duplicated); the identifiers stored are the old ones
  and those of the fetched entries that have one, so an entry without an identifier writes
  no row; every row with a fetched identifier is the row built from a fetched entry with
  that identifier, and its start and close timestamps are absent exactly when
  \<^verbatim>\<open>int\<close> of the entry's field raises \<^verbatim>\<open>TypeError\<close> or \<^verbatim>\<open>ValueError\<close> or is not
  positive; every other row is a row stored before.
\<close>

theorem import_daily_transactions:
  assumes "import_daily env http client d inc s = (s', Inr n)"
    and "distinct (map tx_transaction_id (transactions s))"
  shows "\<exists>payload.
      get http client ''dash.getTransactions'' (date_params ''dateFrom'' ''dateTo'' d) = Inr payload
    \<and> distinct (map tx_transaction_id (transactions s'))
    \<and> tx_transaction_id ` set (transactions s')
         = tx_transaction_id ` set (transactions s) \<union> entry_ids env (extract_transactions payload)
    \<and> (\<forall>r \<in> set (transactions s').
          if tx_transaction_id r \<in> entry_ids env (extract_transactions payload)
          then stored_from env (extract_transactions payload) r
             \<and> (\<exists>dd. tx_raw r = JDict dd \<and> JDict dd \<in> set (extract_transactions payload)
                  \<and> (tx_date_start r = None \<longleftrightarrow> absent_ms env (dict_get dd ''date_start''))
                  \<and> (tx_date_close r = None \<longleftrightarrow> absent_ms env (dict_get dd ''date_close'')))
          else r \<in> set (transactions s))"
proof -
  from assms(1) obtain t p ps ss sp where
    t: "get http client ''dash.getTransactions'' (date_params ''dateFrom'' ''dateTo'' d) = Inr t"
    and f: "finish_import env d t p ps ss (s\<lparr>spots := sp\<rparr>) = (s', Inr n)"
    by (rule import_daily_Inr)
  have "\<exists>tbl. upsert_transactions env (extract_transactions t) (transactions (s\<lparr>spots := sp\<rparr>)) = (tbl, Inr ())
      \<and> transactions s' = tbl"
  proof (rule finish_import_Inr [OF f])
    fix raw tbl pr psr ssr rev avg dr
    assume "upsert_transactions env (extract_transactions t) (transactions (s\<lparr>spots := sp\<rparr>)) = (tbl, Inr ())"
      and "s' = s\<lparr>spots := sp\<rparr>\<lparr>transactions := tbl, payments_reports := pr, products_sales_reports := psr,
             spots_sales_reports := ssr, daily_reports := dr\<rparr>"
    then show ?thesis by simp
  qed
  then obtain tbl where
    u: "upsert_transactions env (extract_transactions t) (transactions (s\<lparr>spots := sp\<rparr>)) = (tbl, Inr ())"
    and s': "transactions s' = tbl"
    by blast
  from u have u': "upsert_transactions env (extract_transactions t) (transactions s) = (transactions s', Inr ())"
    using s' by simp
  note k = upsert_transactions_Inr [OF u' assms(2)]
  have "\<forall>r \<in> set (transactions s').
          if tx_transaction_id r \<in> entry_ids env (extract_transactions t)
          then stored_from env (extract_transactions t) r
             \<and> (\<exists>dd. tx_raw r = JDict dd \<and> JDict dd \<in> set (extract_transactions t)
                  \<and> (tx_date_start r = None \<longleftrightarrow> absent_ms env (dict_get dd ''date_start''))
                  \<and> (tx_date_close r = None \<longleftrightarrow> absent_ms env (dict_get dd ''date_close'')))
          else r \<in> set (transactions s)"
  proof
    fix r assume "r \<in> set (transactions s')"
    with k have c: "if tx_transaction_id r \<in> entry_ids env (extract_transactions t)
          then stored_from env (extract_transactions t) r else r \<in> set (transactions s)"
      by blast
    show "if tx_transaction_id r \<in> entry_ids env (extract_transactions t)
          then stored_from env (extract_transactions t) r
             \<and> (\<exists>dd. tx_raw r = JDict dd \<and> JDict dd \<in> set (extract_transactions t)
                  \<and> (tx_date_start r = None \<longleftrightarrow> absent_ms env (dict_get dd ''date_start''))
                  \<and> (tx_date_close r = None \<longleftrightarrow> absent_ms env (dict_get dd ''date_close'')))
          else r \<in> set (transactions s)"
    proof (cases "tx_transaction_id r \<in> entry_ids env (extract_transactions t)")
      case True
      with c have sf: "stored_from env (extract_transactions t) r" by simp
      from True sf stored_from_timestamps [OF sf] show ?thesis by simp
    next
      case False
      with c show ?thesis by simp
    qed
  qed
  then show ?thesis
    using t k by (intro exI [of _ t] conjI) simp_all
qed

lemma demo_import_returns:
  "snd (import_daily env0 http0 client0 (Date 1970 1 2) True demo_db) = Inr 3"
  by code_simp

lemma update_or_create_first:
  assumes "update_or_create matches new rows = Inr rows'" and "matches new"
  shows "first matches rows' = Some new"
proof -
  consider (create) "filter matches rows = []" "rows' = rows @ [new]"
    | (update) r where "filter matches rows = [r]" "rows' = map (\<lambda>x. if matches x then new else x) rows"
    using assms(1) by (auto simp: update_or_create_def split: list.splits)
  then show ?thesis
  proof cases
    case create
    with assms(2) show ?thesis by (simp add: first_def)
  next
    case update
    have "filter matches (map (\<lambda>x. if matches x then new else x) rows)
            = map (\<lambda>x. new) (filter matches rows)"
      using assms(2) by (induction rows) auto
    with update show ?thesis by (simp add: first_def)
  qed
qed

lemma finish_import_report:
  assumes "finish_import env d t p ps ss s = (s', Inr n)"
  shows "\<exists>raw rev avg.
           raw_totals env (extract_transactions t) = Inr raw
         \<and> reconcile env ss raw = Inr (n, rev, avg)
         \<and> daily_report_on d s' =
             Some \<lparr>dr_date = d, dr_transactions_count = n, dr_revenue = rev, dr_avg_check = avg,
                   dr_raw_transactions = t, dr_raw_payments = p, dr_raw_products_sales = ps\<rparr>"
proof (rule finish_import_Inr [OF assms])
  fix raw tbl pr psr ssr rev avg dr
  assume raw: "raw_totals env (extract_transactions t) = Inr raw"
    and rec: "reconcile env ss raw = Inr (n, rev, avg)"
    and uc: "update_or_create (\<lambda>r. dr_date r = d)
       \<lparr>dr_date = d, dr_transactions_count = n, dr_revenue = rev, dr_avg_check = avg,
        dr_raw_transactions = t, dr_raw_payments = p, dr_raw_products_sales = ps\<rparr>
       (daily_reports s) = Inr dr"
    and s': "s' = s\<lparr>transactions := tbl, payments_reports := pr, products_sales_reports := psr,
             spots_sales_reports := ssr, daily_reports := dr\<rparr>"
  from update_or_create_first [OF uc] have "first (\<lambda>r. dr_date r = d) dr =
      Some \<lparr>dr_date = d, dr_transactions_count = n, dr_revenue = rev, dr_avg_check = avg,
        dr_raw_transactions = t, dr_raw_payments = p, dr_raw_products_sales = ps\<rparr>"
    by simp
  then have "daily_report_on d s' =
      Some \<lparr>dr_date = d, dr_transactions_count = n, dr_revenue = rev, dr_avg_check = avg,
        dr_raw_transactions = t, dr_raw_payments = p, dr_raw_products_sales = ps\<rparr>"
    by (simp add: daily_report_on_def s')
  with raw rec show ?thesis by (intro exI conjI)
qed

lemma import_daily_report:
  assumes "import_daily env http client d inc s = (s', Inr n)"
  shows "\<exists>t p ps ss raw rev avg.
           get http client ''dash.getTransactions'' (date_params ''dateFrom'' ''dateTo'' d) = Inr t
         \<and> or_empty (get http client ''dash.getSpotsSales'' (date_params ''dateFrom'' ''dateTo'' d)) = Inr ss
         \<and> raw_totals env (extract_transactions t) = Inr raw
         \<and> reconcile env ss raw = Inr (n, rev, avg)
         \<and> daily_report_on d s' =
             Some \<lparr>dr_date = d, dr_transactions_count = n, dr_revenue = rev, dr_avg_check = avg,
                   dr_raw_transactions = t, dr_raw_payments = p, dr_raw_products_sales = ps\<rparr>"
proof (rule import_daily_Inr [OF assms])
  fix t p ps ss sp
  assume t: "get http client ''dash.getTransactions'' (date_params ''dateFrom'' ''dateTo'' d) = Inr t"
    and ss: "or_empty (get http client ''dash.getSpotsSales'' (date_params ''dateFrom'' ''dateTo'' d)) = Inr ss"
    and f: "finish_import env d t p ps ss (s\<lparr>spots := sp\<rparr>) = (s', Inr n)"
  from finish_import_report [OF f] obtain raw rev avg where
    "raw_totals env (extract_transactions t) = Inr raw"
    "reconcile env ss raw = Inr (n, rev, avg)"
    "daily_report_on d s' =
             Some \<lparr>dr_date = d, dr_transactions_count = n, dr_revenue = rev, dr_avg_check = avg,
                   dr_raw_transactions = t, dr_raw_payments = p, dr_raw_products_sales = ps\<rparr>"
    by (elim exE conjE)
  with t ss show ?thesis by (intro exI conjI)
qed

lemma or_empty_Inr_dict:
  "or_empty f = Inr v \<Longrightarrow> f = Inr (JDict dd) \<Longrightarrow> v = JDict dd"
  by (simp add: or_empty_def)

lemma reconcile_empty_list:
  "dict_get dd ''response'' = JList [] \<Longrightarrow> reconcile env (JDict dd) raw = Inr (0, 0, 0)"
  by (simp add: reconcile_def reconcile_rows_def bnd_def derive_avg_def)

text \<open>
  Claim C9. When \<open>import_daily\<close> returns and the spots-sales fetch gave a dict whose
  \<open>response\<close> is the empty list, the list branch of the reconciliation applies with totals
  zero: the call returns 0 and the rollup stored for the date has revenue 0, transaction
  count 0 and average check 0, whatever the transactions fetch returned.
\<close>

theorem import_daily_empty_rows:
  assumes "import_daily env http client d inc s = (s', Inr n)"
    and "get http client ''dash.getSpotsSales'' (date_params ''dateFrom'' ''dateTo'' d) = Inr (JDict dd)"
    and "dict_get dd ''response'' = JList []"
  shows "n = 0
       \<and> map_option dr_revenue (daily_report_on d s') = Some 0
       \<and> map_option dr_transactions_count (daily_report_on d s') = Some 0
       \<and> map_option dr_avg_check (daily_report_on d s') = Some 0"
proof -
  from import_daily_report [OF assms(1)] obtain t p ps ss raw rev avg where
    ss: "or_empty (get http client ''dash.getSpotsSales'' (date_params ''dateFrom'' ''dateTo'' d)) = Inr ss"
    and rec: "reconcile env ss raw = Inr (n, rev, avg)"
    and rep: "daily_report_on d s' =
             Some \<lparr>dr_date = d, dr_transactions_count = n, dr_revenue = rev, dr_avg_check = avg,
                   dr_raw_transactions = t, dr_raw_payments = p, dr_raw_products_sales = ps\<rparr>"
    by (elim exE conjE)
  from or_empty_Inr_dict [OF ss assms(2)] have "ss = JDict dd" .
  with rec reconcile_empty_list [OF assms(3), of env raw] have "n = 0" "rev = 0" "avg = 0"
    by simp_all
  with rep show ?thesis by simp
qed

subsection \<open>The importer: which raises abort it\<close>

lemma bnd_no_api:
  "m \<noteq> Inl PosterAPIError \<Longrightarrow> (\<And>v. f v \<noteq> Inl PosterAPIError) \<Longrightarrow> bnd m f \<noteq> Inl PosterAPIError"
  by (cases m) (auto simp: bnd_def)

lemma attr_get_no_api: "attr_get v k \<noteq> Inl PosterAPIError"
  by (cases v) (auto simp: attr_get_def)

lemma int_of_float_no_api: "int_of_float f \<noteq> Inl PosterAPIError"
  by (cases f) auto

lemma py_round_no_api: "py_round f \<noteq> Inl PosterAPIError"
  by (cases f) auto

lemma truediv_no_api: "truediv a b \<noteq> Inl PosterAPIError"
  by (auto simp: truediv_def split: pyfloat.splits)

lemma float_of_int_no_api: "float_of_int n \<noteq> Inl PosterAPIError"
  by (auto simp: float_of_int_def split: pyfloat.splits)

lemma py_int_no_api: "py_int env v \<noteq> Inl PosterAPIError"
  by (cases v) (auto simp: int_of_float_no_api split: option.splits)

lemma py_float_no_api: "py_float env v \<noteq> Inl PosterAPIError"
  by (cases v) (auto simp: float_of_int_no_api split: option.splits)

lemma safe_int_no_api: "safe_int env v \<noteq> Inl PosterAPIError"
  using py_int_no_api [of env v]
  by (auto simp: safe_int_def split: sum.splits py_error.splits)

lemma derive_avg_no_api: "derive_avg a b \<noteq> Inl PosterAPIError"
  by (simp add: derive_avg_def bnd_no_api truediv_no_api int_of_float_no_api)

lemma cents_no_api: "cents f \<noteq> Inl PosterAPIError"
  by (simp add: cents_def py_round_no_api)

lemma fromtimestamp_no_api: "fromtimestamp t \<noteq> Inl PosterAPIError"
  using py_round_no_api
  by (auto simp: fromtimestamp_def Let_def split: pyfloat.splits sum.splits)

lemma parse_ms_no_api: "parse_ms env v \<noteq> Inl PosterAPIError"
  using py_int_no_api [of env v]
  by (auto simp: parse_ms_def bnd_Inl_iff truediv_no_api fromtimestamp_no_api
      split: sum.splits py_error.splits)

lemma update_or_create_no_api: "update_or_create m new rows \<noteq> Inl PosterAPIError"
  by (auto simp: update_or_create_def split: list.splits)

lemma get_first_no_api: "get_first v ks \<noteq> Inl PosterAPIError"
  by (induction v ks rule: get_first.induct) (auto simp: bnd_Inl_iff attr_get_no_api)

lemma sum_of_sums_no_api: "sum_of_sums env items \<noteq> Inl PosterAPIError"
  by (induction items) (auto simp: bnd_Inl_iff attr_get_no_api safe_int_no_api)

lemma raw_totals_no_api: "raw_totals env items \<noteq> Inl PosterAPIError"
  by (auto simp: raw_totals_def bnd_Inl_iff sum_of_sums_no_api derive_avg_no_api)

lemma field_no_api:
  "field_int env item k \<noteq> Inl PosterAPIError"
  "field_str env item k \<noteq> Inl PosterAPIError"
  "field_ms env item k \<noteq> Inl PosterAPIError"
  by (auto simp: field_int_def field_str_def field_ms_def bnd_Inl_iff
      attr_get_no_api safe_int_no_api parse_ms_no_api)

lemma transaction_row_no_api: "transaction_row env tid item \<noteq> Inl PosterAPIError"
  unfolding transaction_row_def
  by (intro bnd_no_api field_no_api) simp

lemma upsert_transactions_no_api:
  "snd (upsert_transactions env items tbl) \<noteq> Inl PosterAPIError"
proof (induction items arbitrary: tbl)
  case Nil
  show ?case by simp
next
  case (Cons item items)
  have a: "entry_id env item \<noteq> Inl PosterAPIError"
    by (simp add: entry_id_def field_no_api)
  have b: "bnd (transaction_row env tid item)
             (\<lambda>row. update_or_create (\<lambda>r. tx_transaction_id r = tid) row tbl) \<noteq> Inl PosterAPIError" for tid
    by (intro bnd_no_api transaction_row_no_api update_or_create_no_api)
  show ?case
    using a b Cons.IH by (auto split: sum.splits)
qed

lemma rows_totals_no_api: "rows_totals env rows acc \<noteq> Inl PosterAPIError"
proof (induction rows arbitrary: acc)
  case Nil
  show ?case by simp
next
  case (Cons row rows)
  obtain a b where acc: "acc = (a, b)" by (cases acc)
  show ?case unfolding acc rows_totals.simps
    by (intro bnd_no_api get_first_no_api safe_int_no_api Cons.IH)
qed

lemma reconcile_no_api: "reconcile env ss raw \<noteq> Inl PosterAPIError"
proof -
  have mi: "middle_invoice_avg env m r c \<noteq> Inl PosterAPIError" for m r c
    using bnd_no_api [OF py_float_no_api cents_no_api, of env m] derive_avg_no_api [of r c]
    by (auto simp: middle_invoice_avg_def split: sum.splits py_error.splits)
  have t: "reconcile_total env resp raw \<noteq> Inl PosterAPIError" for resp
    unfolding reconcile_total_def Let_def
    by (intro bnd_no_api py_float_no_api safe_int_no_api)
       (auto simp: bnd_Inl_iff cents_no_api mi derive_avg_no_api)
  have r: "reconcile_rows env rows raw \<noteq> Inl PosterAPIError" for rows
    unfolding reconcile_rows_def
    by (intro bnd_no_api rows_totals_no_api)
       (auto simp: bnd_Inl_iff derive_avg_no_api split: if_splits)
  show ?thesis
    using t r by (auto simp: reconcile_def split: json.splits)
qed

lemma upsert_report_no_api: "upsert_report d v tbl \<noteq> Inl PosterAPIError"
  by (simp add: upsert_report_def update_or_create_no_api)

lemma finish_import_no_api:
  "snd (finish_import env d t p ps ss s) \<noteq> Inl PosterAPIError"
  using raw_totals_no_api [of env "extract_transactions t"]
    upsert_transactions_no_api [of env "extract_transactions t" "transactions s"]
  unfolding finish_import_def Let_def
  by (auto simp: upsert_report_no_api reconcile_no_api update_or_create_no_api
      split: sum.splits prod.splits if_splits)

lemma sync_spot_rows_no_api: "snd (sync_spot_rows env rows tbl) \<noteq> Inl PosterAPIError"
  by (induction rows arbitrary: tbl)
     (auto simp: Let_def attr_get_no_api update_or_create_no_api split: sum.splits)

lemma sync_spots_no_api: "snd (sync_spots env f tbl) \<noteq> Inl PosterAPIError"
  using sync_spot_rows_no_api
  by (auto simp: sync_spots_def split: sum.splits py_error.splits json.splits)

lemma or_empty_no_api: "or_empty f \<noteq> Inl PosterAPIError"
  by (auto simp: or_empty_def split: sum.splits py_error.splits)

lemma get_cases:
  "get http c path ps = Inl PosterConfigError \<and> auth_style c \<notin> recognised_styles
   \<or> get http c path ps = Inl PosterAPIError \<and> auth_style c \<in> recognised_styles
   \<or> (\<exists>v. get http c path ps = Inr v) \<and> auth_style c \<in> recognised_styles"
  by (auto simp: get_def request_def apply_auth_def recognised_styles_def Let_def
      split: http_outcome.splits option.splits)

lemma import_fetched_api_error:
  "snd (import_fetched env d tf pf prods ssf sf s) = Inl PosterAPIError
     \<longleftrightarrow> tf = Inl PosterAPIError \<or> ((\<exists>t. tf = Inr t) \<and> pf = Inl PosterAPIError)"
proof -
  have a: "(case prods of Some f \<Rightarrow> or_empty f | None \<Rightarrow> Inr (JDict [])) \<noteq> Inl PosterAPIError"
    by (cases prods) (simp_all add: or_empty_no_api)
  show ?thesis
    using a or_empty_no_api [of ssf] sync_spots_no_api [of env sf "spots s"]
      finish_import_no_api [of env d]
    unfolding import_fetched_def
    by (auto split: sum.splits prod.splits)
qed

lemma import_fetched_abort:
  "tf = Inl e \<or> ((\<exists>t. tf = Inr t) \<and> pf = Inl e)
     \<Longrightarrow> import_fetched env d tf pf prods ssf sf s = (s, Inl e)"
  by (auto simp: import_fetched_def)

lemma or_empty_idem: "or_empty (or_empty f) = or_empty f"
  by (auto simp: or_empty_def split: sum.splits py_error.splits)

lemma sync_spots_or_empty: "sync_spots env (or_empty f) tbl = sync_spots env f tbl"
  by (auto simp: or_empty_def sync_spots_def dict_get_def split: sum.splits py_error.splits)

lemma import_fetched_degrade:
  "import_fetched env d tf pf prods ssf sf s
     = import_fetched env d tf pf (map_option or_empty prods) (or_empty ssf) (or_empty sf) s"
proof -
  have h: "(case map_option or_empty prods of None \<Rightarrow> Inr (JDict []) | Some x \<Rightarrow> or_empty x)
         = (case prods of None \<Rightarrow> Inr (JDict []) | Some x \<Rightarrow> or_empty x)"
    by (cases prods) (simp_all add: or_empty_idem)
  show ?thesis
    unfolding import_fetched_def or_empty_idem sync_spots_or_empty h ..
qed

text \<open>
  Claim C4. \<open>import_daily\<close> raises \<open>PosterAPIError\<close> exactly when the transactions fetch or
  the payments fetch raises it, and then the database is as it was before the call (no
  rollup is written). The products-sales, spots-sales and directory fetches never abort it
  that way: the outcome of the call is the outcome it has when each of them that failed had
  returned the empty dict instead.
\<close>

theorem import_daily_aborts:
  "(snd (import_daily env http client d inc s) = Inl PosterAPIError
      \<longleftrightarrow> get http client ''dash.getTransactions'' (date_params ''dateFrom'' ''dateTo'' d)
             = Inl PosterAPIError
          \<or> get http client ''dash.getPaymentsReport'' (date_params ''date_from'' ''date_to'' d)
             = Inl PosterAPIError)
   \<and> (snd (import_daily env http client d inc s) = Inl PosterAPIError
        \<longrightarrow> fst (import_daily env http client d inc s) = s)
   \<and> import_daily env http client d inc s
       = import_fetched env d
           (get http client ''dash.getTransactions'' (date_params ''dateFrom'' ''dateTo'' d))
           (get http client ''dash.getPaymentsReport'' (date_params ''date_from'' ''date_to'' d))
           (if inc
            then Some (or_empty (get http client ''dash.getProductsSales''
                                   (date_params ''dateFrom'' ''dateTo'' d)))
            else None)
           (or_empty (get http client ''dash.getSpotsSales'' (date_params ''dateFrom'' ''dateTo'' d)))
           (or_empty (get http client ''spots.getSpots'' None))
           s"
proof -
  let ?T = "get http client ''dash.getTransactions'' (date_params ''dateFrom'' ''dateTo'' d)"
  let ?P = "get http client ''dash.getPaymentsReport'' (date_params ''date_from'' ''date_to'' d)"
  let ?PR = "if inc then Some (get http client ''dash.getProductsSales''
                                   (date_params ''dateFrom'' ''dateTo'' d)) else None"
  let ?SS = "get http client ''dash.getSpotsSales'' (date_params ''dateFrom'' ''dateTo'' d)"
  let ?SL = "get http client ''spots.getSpots'' None"
  have imp: "import_daily env http client d inc s = import_fetched env d ?T ?P ?PR ?SS ?SL s"
    by (simp add: import_daily_def)
  have tp: "?T = Inl PosterAPIError \<or> ((\<exists>t. ?T = Inr t) \<and> ?P = Inl PosterAPIError)
        \<longleftrightarrow> ?T = Inl PosterAPIError \<or> ?P = Inl PosterAPIError"
    using get_cases [of http client "''dash.getTransactions''" "date_params ''dateFrom'' ''dateTo'' d"]
      get_cases [of http client "''dash.getPaymentsReport''" "date_params ''date_from'' ''date_to'' d"]
    by auto
  have 1: "snd (import_daily env http client d inc s) = Inl PosterAPIError
      \<longleftrightarrow> ?T = Inl PosterAPIError \<or> ?P = Inl PosterAPIError"
    unfolding imp import_fetched_api_error tp ..
  have 2: "snd (import_daily env http client d inc s) = Inl PosterAPIError
        \<longrightarrow> fst (import_daily env http client d inc s) = s"
  proof
    assume "snd (import_daily env http client d inc s) = Inl PosterAPIError"
    then have "?T = Inl PosterAPIError \<or> ((\<exists>t. ?T = Inr t) \<and> ?P = Inl PosterAPIError)"
      unfolding imp import_fetched_api_error .
    from import_fetched_abort [OF this] show "fst (import_daily env http client d inc s) = s"
      unfolding imp by simp
  qed
  have 3: "import_daily env http client d inc s
       = import_fetched env d ?T ?P
           (if inc then Some (or_empty (get http client ''dash.getProductsSales''
                                   (date_params ''dateFrom'' ''dateTo'' d))) else None)
           (or_empty ?SS) (or_empty ?SL) s"
    unfolding imp
    by (subst import_fetched_degrade) simp
  from 1 2 3 show ?thesis by (intro conjI)
qed

lemma demo_fetches:
  "get http0 client0 ''dash.getProductsSales'' (date_params ''dateFrom'' ''dateTo'' (Date 1970 1 2))
     = Inl PosterAPIError"
  "get http0 client0 ''dash.getSpotsSales'' (date_params ''dateFrom'' ''dateTo'' (Date 1970 1 2))
     = Inl PosterAPIError"
  "get http0 client0 ''spots.getSpots'' None = Inl PosterAPIError"
  "get (\<lambda>r. RequestException) client0 ''dash.getTransactions''
     (date_params ''dateFrom'' ''dateTo'' (Date 1970 1 2)) = Inl PosterAPIError"
  "get http1 client0 ''dash.getSpotsSales'' (date_params ''dateFrom'' ''dateTo'' (Date 1970 1 2))
     = Inr (JDict [(''response'', JList [])])"
  by code_simp+

theorem import_daily_aborts_witness:
  "get http0 client0 ''dash.getProductsSales'' (date_params ''dateFrom'' ''dateTo'' (Date 1970 1 2))
     = Inl PosterAPIError
   \<and> get http0 client0 ''dash.getSpotsSales'' (date_params ''dateFrom'' ''dateTo'' (Date 1970 1 2))
     = Inl PosterAPIError
   \<and> get http0 client0 ''spots.getSpots'' None = Inl PosterAPIError
   \<and> snd (import_daily env0 http0 client0 (Date 1970 1 2) True demo_db) = Inr 3
   \<and> snd (import_daily env0 (\<lambda>r. RequestException) client0 (Date 1970 1 2) True demo_db)
       = Inl PosterAPIError
   \<and> fst (import_daily env0 (\<lambda>r. RequestException) client0 (Date 1970 1 2) True demo_db) = demo_db"
proof -
  note t = import_daily_aborts [of env0 "\<lambda>r. RequestException" client0 "Date 1970 1 2" True demo_db]
  note t1 = t [THEN conjunct1] and t2 = t [THEN conjunct2, THEN conjunct1]
  have a:
    "snd (import_daily env0 (\<lambda>r. RequestException) client0 (Date 1970 1 2) True demo_db)
       = Inl PosterAPIError"
    by (rule t1 [THEN iffD2], rule disjI1, rule demo_fetches(4))
  have b:
    "fst (import_daily env0 (\<lambda>r. RequestException) client0 (Date 1970 1 2) True demo_db) = demo_db"
    by (rule t2 [THEN mp, OF a])
  show ?thesis
    by (intro conjI demo_fetches(1) demo_fetches(2) demo_fetches(3) demo_import_returns a b)
qed

lemma demo_totals: "sum_of_sums env0 demo_items = Inr 2200"
  by code_simp

lemma demo_import1_returns:
  "snd (import_daily env0 http1 client0 (Date 1970 1 2) False demo_db) = Inr 0"
  by code_simp

theorem import_daily_empty_rows_witness:
  "get http1 client0 ''dash.getSpotsSales'' (date_params ''dateFrom'' ''dateTo'' (Date 1970 1 2))
     = Inr (JDict [(''response'', JList [])])
   \<and> dict_get [(''response'', JList [])] ''response'' = JList []
   \<and> sum_of_sums env0 demo_items = Inr 2200
   \<and> snd (import_daily env0 http1 client0 (Date 1970 1 2) False demo_db) = Inr 0
   \<and> map_option dr_revenue
        (daily_report_on (Date 1970 1 2)
           (fst (import_daily env0 http1 client0 (Date 1970 1 2) False demo_db))) = Some 0
   \<and> map_option dr_transactions_count
        (daily_report_on (Date 1970 1 2)
           (fst (import_daily env0 http1 client0 (Date 1970 1 2) False demo_db))) = Some 0
   \<and> map_option dr_avg_check
        (daily_report_on (Date 1970 1 2)
           (fst (import_daily env0 http1 client0 (Date 1970 1 2) False demo_db))) = Some 0"
proof -
  have h1: "import_daily env0 http1 client0 (Date 1970 1 2) False demo_db
     = (fst (import_daily env0 http1 client0 (Date 1970 1 2) False demo_db), Inr 0)"
    using demo_import1_returns
      prod.collapse [of "import_daily env0 http1 client0 (Date 1970 1 2) False demo_db"]
    by simp
  have h3: "dict_get [(''response'', JList [])] ''response'' = JList []"
    by (simp add: dict_get_def)
  note t = import_daily_empty_rows [OF h1 demo_fetches(5) h3]
  from t have a: "map_option dr_revenue
        (daily_report_on (Date 1970 1 2)
           (fst (import_daily env0 http1 client0 (Date 1970 1 2) False demo_db))) = Some 0"
    by (elim conjE)
  from t have b: "map_option dr_transactions_count
        (daily_report_on (Date 1970 1 2)
           (fst (import_daily env0 http1 client0 (Date 1970 1 2) False demo_db))) = Some 0"
    by (elim conjE)
  from t have c: "map_option dr_avg_check
        (daily_report_on (Date 1970 1 2)
           (fst (import_daily env0 http1 client0 (Date 1970 1 2) False demo_db))) = Some 0"
    by (elim conjE)
  show ?thesis
    by (intro conjI demo_fetches(5) h3 demo_totals demo_import1_returns a b c)
qed

text \<open>
  Claim C7, at the input where the code misses it. The stored aggregate for the date is
  \<open>{"response": null}\<close>, which has no usable per-spot rows (and which \<open>import_daily\<close>
  stores as it is). \<^verbatim>\<open>raw.get("response", [])\<close> returns the null, the loop
  \<^verbatim>\<open>for row in rows\<close> raises \<open>TypeError\<close>, and the fallback over the stored
  transactions, which would give the summary below, is never reached. An aggregate
  without the key does fall back.
\<close>

theorem daily_summary_null_response:
  "daily_summary_by_spot env0 (Date 1970 1 2) null_aggregate_db = Inl TypeError
   \<and> official_summary env0 (Date 1970 1 2)
        [\<lparr>ar_date = Date 1970 1 2, ar_raw = JDict []\<rparr>] = Inr []
   \<and> fallback_summary env0 (Date 1970 1 2) (transactions null_aggregate_db) =
       [(''1'', \<lparr>s_transactions = 2, s_revenue = 500, s_returns = 0, s_returns_sum = 0\<rparr>),
        (''unknown'', \<lparr>s_transactions = 1, s_revenue = 700, s_returns = 1, s_returns_sum = 700\<rparr>)]"
  by code_simp

subsection \<open>The importer: an entry with an infinite timestamp\<close>

lemma infinite_import:
  "import_daily env0 http2 client0 (Date 1970 1 2) False demo_db = (demo_db, Inl OverflowError)"
  by code_simp

lemma infinite_parts:
  "parse_ms env0 (JFloat NInf) = Inl OverflowError"
  "parse_ms env0 (JFloat NaN) = Inr None"
  "entry_id env0 (infinite_items ! 0) = Inr ''A1''"
  "entry_id env0 (infinite_items ! 1) = Inr ''A2''"
  "daily_report_on (Date 1970 1 2) demo_db = None"
  by code_simp+

text \<open>
  Claim C8, at the input where the code misses it. \<^verbatim>\<open>_parse_ms\<close> catches
  \<^verbatim>\<open>TypeError\<close> and \<^verbatim>\<open>ValueError\<close> only, so a start timestamp of minus infinity,
  which is not positive, is not stored as absent: \<^verbatim>\<open>int\<close> raises \<open>OverflowError\<close>, the
  import ends there, and neither that entry nor the one after it, both with identifiers,
  is written. A NaN timestamp is stored as absent.
\<close>

theorem import_daily_infinite_timestamp:
  "parse_ms env0 (JFloat NInf) = Inl OverflowError
   \<and> parse_ms env0 (JFloat NaN) = Inr None
   \<and> entry_id env0 (infinite_items ! 0) = Inr ''A1''
   \<and> entry_id env0 (infinite_items ! 1) = Inr ''A2''
   \<and> snd (import_daily env0 http2 client0 (Date 1970 1 2) False demo_db) = Inl OverflowError
   \<and> transactions (fst (import_daily env0 http2 client0 (Date 1970 1 2) False demo_db))
       = transactions demo_db
   \<and> daily_report_on (Date 1970 1 2)
        (fst (import_daily env0 http2 client0 (Date 1970 1 2) False demo_db)) = None"
  unfolding infinite_import fst_conv snd_conv
  by (intro conjI infinite_parts refl)

subsection \<open>Binary64 rounding\<close>

lemma bitlen_powi_bounds:
  assumes "0 < p"
  shows "(2::rat) powi (bitlen p - 1) \<le> of_int p" and "of_int p < (2::rat) powi (bitlen p)"
proof -
  have b: "1 \<le> bitlen p" using assms by (simp add: bitlen_alt_def)
  from bitlen_bounds [OF assms] have 1: "2 ^ nat (bitlen p - 1) \<le> p" and 2: "p < 2 ^ nat (bitlen p)"
    by blast+
  have "(of_int (2 ^ nat (bitlen p - 1)) :: rat) \<le> of_int p"
    using 1 by (simp only: of_int_le_iff)
  then have "(2::rat) ^ nat (bitlen p - 1) \<le> of_int p" by simp
  then show "(2::rat) powi (bitlen p - 1) \<le> of_int p"
    using b by (simp only: power_int_nonneg_exp [of "bitlen p - 1" "2::rat"] diff_ge_0_iff_ge)
  have "(of_int p :: rat) < of_int (2 ^ nat (bitlen p))"
    using 2 by (simp only: of_int_less_iff)
  then have "(of_int p :: rat) < 2 ^ nat (bitlen p)" by simp
  moreover have "0 \<le> bitlen p" using b by simp
  ultimately show "of_int p < (2::rat) powi (bitlen p)"
    by (simp only: power_int_nonneg_exp [of "bitlen p" "2::rat"])
qed

lemma powi2_split: "(2::rat) powi (a + b) = 2 powi a * 2 powi b"
  by (simp add: power_int_add)

lemma floor_log2_bounds:
  assumes "0 < x"
  shows "2 powi (floor_log2 x) \<le> x \<and> x < 2 powi (floor_log2 x + 1)"
proof -
  obtain p q where pq: "quotient_of x = (p, q)" by (cases "quotient_of x")
  have q: "0 < q" using quotient_of_denom_pos [OF pq] .
  have x: "x = of_int p / of_int q" using quotient_of_div [OF pq] .
  have qpos: "(0::rat) < of_int q" using q by simp
  have "(0::rat) < of_int p"
    using assms qpos unfolding x by (simp add: zero_less_divide_iff)
  then have p: "0 < p" by simp
  define k where "k = bitlen p - bitlen q"
  note pb = bitlen_powi_bounds [OF p] and qb = bitlen_powi_bounds [OF q]
  have up: "x < 2 powi (k + 1)"
  proof -
    have e: "(2::rat) powi (bitlen p) = 2 powi (k + 1) * 2 powi (bitlen q - 1)"
      unfolding powi2_split [symmetric] k_def by simp
    have "of_int p < (2::rat) powi (bitlen p)" by (rule pb(2))
    also have "\<dots> \<le> 2 powi (k + 1) * of_int q"
      unfolding e by (rule mult_left_mono [OF qb(1)]) simp
    finally have "(of_int p :: rat) < 2 powi (k + 1) * of_int q" .
    then show ?thesis unfolding x using qpos by (simp add: pos_divide_less_eq)
  qed
  have lo: "2 powi (k - 1) < x"
  proof -
    have e: "(2::rat) powi (k - 1) * 2 powi (bitlen q) = 2 powi (bitlen p - 1)"
      unfolding powi2_split [symmetric] k_def by simp
    have "2 powi (k - 1) * of_int q < (2::rat) powi (k - 1) * 2 powi (bitlen q)"
      by (rule mult_strict_left_mono [OF qb(2)]) simp
    also have "\<dots> \<le> of_int p" unfolding e by (rule pb(1))
    finally have "(2::rat) powi (k - 1) * of_int q < of_int p" .
    then show ?thesis unfolding x using qpos by (simp add: pos_less_divide_eq)
  qed
  have fl2: "floor_log2 x = (if 2 powi k \<le> x then k else k - 1)"
    by (simp add: floor_log2_def pq k_def Let_def)
  show ?thesis
  proof (cases "2 powi k \<le> x")
    case True
    with up show ?thesis unfolding fl2 by simp
  next
    case False
    with lo show ?thesis unfolding fl2 by simp
  qed
qed

lemma powi2_less_iff: "(2::rat) powi a < 2 powi b \<longleftrightarrow> a < b"
proof
  assume l: "(2::rat) powi a < 2 powi b"
  show "a < b"
  proof (rule ccontr)
    assume "\<not> a < b"
    then have "b \<le> a" by simp
    then have "(2::rat) powi b \<le> 2 powi a" by (rule power_int_increasing) simp
    with l show False by simp
  qed
next
  assume "a < b"
  then show "(2::rat) powi a < 2 powi b" by (rule power_int_strict_increasing) simp
qed

lemma powi2_le_iff: "(2::rat) powi a \<le> 2 powi b \<longleftrightarrow> a \<le> b"
  using powi2_less_iff [of b a] by (simp add: not_less [symmetric])

lemma powi2_pos: "(0::rat) < 2 powi a"
  by simp

lemma floor_log2_unique:
  assumes "2 powi e \<le> x" and "x < 2 powi (e + 1)"
  shows "floor_log2 x = e"
proof -
  have x: "0 < x" using powi2_pos [of e] assms(1) by (rule less_le_trans)
  from floor_log2_bounds [OF x] have b1: "2 powi (floor_log2 x) \<le> x"
    and b2: "x < 2 powi (floor_log2 x + 1)" by simp_all
  have "(2::rat) powi e < 2 powi (floor_log2 x + 1)" using assms(1) b2 by (rule le_less_trans)
  then have 1: "e < floor_log2 x + 1" by (simp only: powi2_less_iff)
  have "(2::rat) powi (floor_log2 x) < 2 powi (e + 1)" using b1 assms(2) by (rule le_less_trans)
  then have 2: "floor_log2 x < e + 1" by (simp only: powi2_less_iff)
  from 1 2 show ?thesis by simp
qed

lemma floor_log2_ge_iff:
  assumes "0 < x"
  shows "e \<le> floor_log2 x \<longleftrightarrow> 2 powi e \<le> x"
proof
  assume "e \<le> floor_log2 x"
  then have "(2::rat) powi e \<le> 2 powi (floor_log2 x)" by (simp only: powi2_le_iff)
  also have "\<dots> \<le> x" using floor_log2_bounds [OF assms] by simp
  finally show "2 powi e \<le> x" .
next
  assume "2 powi e \<le> x"
  also have "x < 2 powi (floor_log2 x + 1)" using floor_log2_bounds [OF assms] by simp
  finally have "e < floor_log2 x + 1" by (simp only: powi2_less_iff)
  then show "e \<le> floor_log2 x" by simp
qed

lemma floor_log2_zero: "floor_log2 0 = - 2"
proof -
  have "quotient_of 0 = (0, 1)" by simp
  moreover have "bitlen 0 = 0" "bitlen 1 = 1" by (simp_all add: bitlen_alt_def)
  moreover have "\<not> (2::rat) powi (- 1) \<le> 0" using powi2_pos [of "- 1"] by (simp only: not_le)
  ultimately show ?thesis by (simp add: floor_log2_def)
qed

lemma round_half_even_bounds:
  "x - 1 / 2 \<le> of_int (round_half_even x)" "of_int (round_half_even x) \<le> x + 1 / 2"
proof -
  define f where "f = \<lfloor>x\<rfloor>"
  have f: "of_int f \<le> x" "x < of_int f + 1" unfolding f_def by linarith+
  have r: "round_half_even x =
      (if x - of_int f < 1 / 2 then f else if 1 / 2 < x - of_int f then f + 1
       else if even f then f else f + 1)"
    by (simp add: round_half_even_def Let_def f_def)
  show "x - 1 / 2 \<le> of_int (round_half_even x)"
    unfolding r using f by (simp split: if_splits)
  show "of_int (round_half_even x) \<le> x + 1 / 2"
    unfolding r using f by (simp split: if_splits)
qed

lemma round_half_even_of_int: "round_half_even (of_int n) = n"
  by (simp add: round_half_even_def)

lemma round_half_even_le:
  assumes "x < of_int n + 1 / 2"
  shows "round_half_even x \<le> n"
proof -
  have "(of_int (round_half_even x) :: rat) < of_int n + 1"
    using round_half_even_bounds(2) [of x] assms by linarith
  then have "(of_int (round_half_even x) :: rat) < of_int (n + 1)" by simp
  then have "round_half_even x < n + 1" by (simp only: of_int_less_iff)
  then show ?thesis by simp
qed

lemma round_half_even_ge:
  assumes "of_int n - 1 / 2 < x"
  shows "n \<le> round_half_even x"
proof -
  have "(of_int n :: rat) - 1 < of_int (round_half_even x)"
    using round_half_even_bounds(1) [of x] assms by linarith
  then have "(of_int (n - 1) :: rat) < of_int (round_half_even x)" by simp
  then have "n - 1 < round_half_even x" by (simp only: of_int_less_iff)
  then show ?thesis by simp
qed

lemma overflow_test:
  assumes "0 \<le> m"
  shows "1024 \<le> floor_log2 (of_int m * 2 powi e) \<longleftrightarrow> 2 powi 1024 \<le> (of_int m * 2 powi e :: rat)"
proof (cases "m = 0")
  case True
  have "\<not> (2::rat) powi 1024 \<le> 0" using powi2_pos [of 1024] by (simp only: not_le)
  with True show ?thesis by (simp add: floor_log2_zero)
next
  case False
  with assms have "(0::rat) < of_int m" by simp
  then have "(0::rat) < of_int m * 2 powi e" by (simp add: zero_less_mult_iff)
  from floor_log2_ge_iff [OF this] show ?thesis .
qed

lemma fman_bounds:
  assumes "x \<noteq> 0"
  shows "0 \<le> fman x" and "fman x \<le> 2 ^ 53"
    and "- 1074 \<le> floor_log2 \<bar>x\<bar> - 52 \<Longrightarrow> 2 ^ 52 \<le> fman x"
proof -
  have ax: "0 < \<bar>x\<bar>" using assms by simp
  define j where "j = floor_log2 \<bar>x\<bar>"
  from floor_log2_bounds [OF ax] have j1: "2 powi j \<le> \<bar>x\<bar>" and j2: "\<bar>x\<bar> < 2 powi (j + 1)"
    unfolding j_def by simp_all
  define e where "e = fexp x"
  have e: "j - 52 \<le> e" unfolding e_def fexp_def j_def by simp
  have pe: "(0::rat) < 2 powi e" by simp
  define y where "y = \<bar>x\<bar> / 2 powi e"
  have m: "fman x = round_half_even y" unfolding fman_def y_def e_def ..
  have "0 < y" unfolding y_def using ax pe by (simp add: zero_less_divide_iff)
  then have "of_int 0 - 1 / 2 < y" by simp
  from round_half_even_ge [OF this] show "0 \<le> fman x" unfolding m .
  have "(2::rat) powi (j + 1) \<le> 2 powi (53 + e)" using e by (simp only: powi2_le_iff)
  with j2 have "\<bar>x\<bar> < 2 powi (53 + e)" by (rule less_le_trans)
  then have "\<bar>x\<bar> < 2 powi 53 * 2 powi e" by (simp only: powi2_split)
  then have "y < 2 powi 53" unfolding y_def using pe by (simp only: pos_divide_less_eq)
  then have "y < of_int (2 ^ 53) + 1 / 2" by simp
  from round_half_even_le [OF this] show "fman x \<le> 2 ^ 53" unfolding m .
  assume "- 1074 \<le> floor_log2 \<bar>x\<bar> - 52"
  then have "e = j - 52" unfolding e_def fexp_def j_def by simp
  then have "j = 52 + e" by simp
  then have "(2::rat) powi j = 2 powi 52 * 2 powi e" by (simp only: powi2_split)
  with j1 have "2 powi 52 * 2 powi e \<le> \<bar>x\<bar>" by (simp only:)
  then have "2 powi 52 \<le> y" unfolding y_def using pe by (simp only: pos_le_divide_eq)
  then have "of_int (2 ^ 52) - 1 / 2 < y" by simp
  from round_half_even_ge [OF this] show "2 ^ 52 \<le> fman x" unfolding m .
qed

lemma fl_pos:
  assumes "0 < x"
  shows "fl x = (if 2 powi 1024 \<le> (of_int (fman x) * 2 powi fexp x :: rat) then PInf
                 else Fin (of_int (fman x) * 2 powi fexp x))"
proof -
  have ax: "\<bar>x\<bar> = x" using assms by simp
  have nz: "x \<noteq> 0" using assms by simp
  have "fl x = (if 1024 \<le> floor_log2 (of_int (fman x) * 2 powi fexp x) then PInf
                else Fin (of_int (fman x) * 2 powi fexp x))"
    using assms by (simp add: fl_def fman_def fexp_def Let_def)
  then show ?thesis unfolding overflow_test [OF fman_bounds(1) [OF nz]] .
qed

lemma fl_neg:
  assumes "x < 0"
  shows "fl x = (if 2 powi 1024 \<le> (of_int (fman x) * 2 powi fexp x :: rat) then NInf
                 else Fin (- (of_int (fman x) * 2 powi fexp x)))"
proof -
  have nz: "x \<noteq> 0" using assms by simp
  have "fl x = (if 1024 \<le> floor_log2 (of_int (fman x) * 2 powi fexp x) then NInf
                else Fin (- (of_int (fman x) * 2 powi fexp x)))"
    using assms by (simp add: fl_def fman_def fexp_def Let_def)
  then show ?thesis unfolding overflow_test [OF fman_bounds(1) [OF nz]] .
qed

lemma fl_zero: "fl 0 = Fin 0"
  by (simp add: fl_def)

lemma powi2_neg_of_int:
  assumes "e \<le> 0"
  shows "(2::rat) powi (- e) = of_int (2 ^ nat (- e))" and "(2::rat) powi e = 1 / of_int (2 ^ nat (- e))"
proof -
  have "0 \<le> - e" using assms by simp
  then show 1: "(2::rat) powi (- e) = of_int (2 ^ nat (- e))"
    by (simp only: power_int_nonneg_exp [of "- e" "2::rat"]) simp
  have "(2::rat) powi e = inverse (2 powi (- e))" by (simp add: power_int_minus)
  then show "(2::rat) powi e = 1 / of_int (2 ^ nat (- e))"
    unfolding 1 by (simp add: divide_inverse)
qed

lemma floor_log2_less:
  assumes "0 < x" and "x < 2 powi k"
  shows "floor_log2 x < k"
proof -
  have "2 powi (floor_log2 x) \<le> x" using floor_log2_bounds [OF assms(1)] by simp
  then have "(2::rat) powi (floor_log2 x) < 2 powi k" using assms(2) by (rule le_less_trans)
  then show ?thesis by (simp only: powi2_less_iff)
qed

lemma fl_pos_small:
  assumes x: "0 < x" and x53: "x < 2 ^ 53"
  obtains S m where "0 < S" "fl x = Fin (of_int m / of_int S)"
    "m = round_half_even (x * of_int S)" "0 \<le> m"
    "- 1074 \<le> floor_log2 x - 52 \<Longrightarrow> (of_int S :: rat) = 2 powi (52 - floor_log2 x)"
    "floor_log2 x - 52 < - 1074 \<Longrightarrow> S = 2 ^ 1074"
proof -
  have ax: "\<bar>x\<bar> = x" and nz: "x \<noteq> 0" using x by simp_all
  define j where "j = floor_log2 x"
  have "x < 2 powi 53" using x53 by simp
  from floor_log2_less [OF x this] have j: "j < 53" unfolding j_def .
  define e where "e = fexp x"
  have e: "e = max (j - 52) (- 1074)" unfolding e_def fexp_def j_def ax ..
  have e0: "e \<le> 0" using j unfolding e by simp
  define S :: int where "S = 2 ^ nat (- e)"
  note pw = powi2_neg_of_int [OF e0, folded S_def]
  have S: "0 < S" unfolding S_def by simp
  define m where "m = fman x"
  have m: "m = round_half_even (x * of_int S)"
    unfolding m_def fman_def ax e_def [symmetric] pw(2) by simp
  have m0: "0 \<le> m" and m53: "m \<le> 2 ^ 53" unfolding m_def using fman_bounds [OF nz] by simp_all
  have val: "of_int (fman x) * 2 powi fexp x = (of_int m / of_int S :: rat)"
    unfolding m_def e_def [symmetric] pw(2) by simp
  have "(of_int m / of_int S :: rat) \<le> of_int m"
  proof -
    have "(1::rat) \<le> of_int S" using S by simp
    moreover have "(0::rat) \<le> of_int m" using m0 by simp
    ultimately have "(of_int m :: rat) * 1 \<le> of_int m * of_int S" by (rule mult_left_mono)
    then show ?thesis using S by (simp add: pos_divide_le_eq)
  qed
  also have "(of_int m :: rat) \<le> of_int (2 ^ 53)" using m53 by (simp only: of_int_le_iff)
  also have "(of_int (2 ^ 53) :: rat) < 2 powi 1024" by simp
  finally have "\<not> 2 powi 1024 \<le> (of_int m / of_int S :: rat)" by (simp only: not_le)
  then have fl: "fl x = Fin (of_int m / of_int S)"
    unfolding fl_pos [OF x] val by simp
  have A: "(of_int S :: rat) = 2 powi (52 - floor_log2 x)" if "- 1074 \<le> floor_log2 x - 52"
  proof -
    from that have "e = j - 52" unfolding e j_def by simp
    then have "- e = 52 - floor_log2 x" unfolding j_def by simp
    with pw(1) show ?thesis by simp
  qed
  have B: "S = 2 ^ 1074" if "floor_log2 x - 52 < - 1074"
  proof -
    from that have "e = - 1074" unfolding e j_def by simp
    then show ?thesis unfolding S_def by simp
  qed
  from S fl m m0 A B show thesis by (rule that)
qed


lemma fexp_uminus: "fexp (- x) = fexp x"
  by (simp add: fexp_def)

lemma fman_uminus: "fman (- x) = fman x"
  by (simp add: fman_def fexp_def)

lemma fl_uminus_pos:
  assumes "0 < x" and "fl x = Fin z"
  shows "fl (- x) = Fin (- z)"
proof -
  have n: "- x < 0" using assms(1) by simp
  from assms(2) have "\<not> 2 powi 1024 \<le> (of_int (fman x) * 2 powi fexp x :: rat)"
    and "z = of_int (fman x) * 2 powi fexp x"
    unfolding fl_pos [OF assms(1)] by (simp_all split: if_splits)
  then show ?thesis unfolding fl_neg [OF n] fexp_uminus fman_uminus by simp
qed





lemma fl_of_int:
  assumes "\<bar>n\<bar> < 2 ^ 53"
  shows "fl (of_int n) = Fin (of_int n)"
proof -
  have pos: "fl (of_int k) = Fin (of_int k)" if k: "0 < k" "k < 2 ^ 53" for k
  proof -
    have x: "(0::rat) < of_int k" using k(1) by simp
    have "(of_int k :: rat) < of_int (2 ^ 53)" using k(2) by (simp only: of_int_less_iff)
    then have x53: "(of_int k :: rat) < 2 ^ 53" by simp
    from fl_pos_small [OF x x53] obtain S m where S: "0 < S"
      and fl: "fl (of_int k) = Fin (of_int m / of_int S)"
      and m: "m = round_half_even (of_int k * of_int S)" by blast
    have "m = k * S" unfolding m of_int_mult [symmetric] round_half_even_of_int ..
    then have "(of_int m / of_int S :: rat) = of_int k" using S by simp
    with fl show ?thesis by simp
  qed
  consider "n = 0" | "0 < n" | "n < 0" by linarith
  then show ?thesis
  proof cases
    case 1
    then show ?thesis by (simp add: fl_zero)
  next
    case 2
    with assms show ?thesis by (intro pos) simp_all
  next
    case 3
    with assms have k: "0 < - n" "- n < 2 ^ 53" by simp_all
    have x: "(0::rat) < of_int (- n)" using k(1) by (simp only: of_int_0_less_iff)
    from fl_uminus_pos [OF x pos [OF k]] show ?thesis by simp
  qed
qed

lemma cents_of_int:
  assumes "\<bar>100 * k\<bar> < 2 ^ 53"
  shows "cents (Fin (of_int k)) = Inr (100 * k)"
proof -
  have "fl (of_int k * 100) = fl (of_int (100 * k))" by (simp add: mult.commute)
  also have "\<dots> = Fin (of_int (100 * k))" using assms by (rule fl_of_int)
  finally show ?thesis by (simp add: cents_def round_half_even_of_int del: of_int_mult)
qed

lemma fl_pos_Fin:
  assumes "0 < x" and "fl x = Fin z"
  shows "z = of_int (fman x) * 2 powi fexp x"
  using assms(2) unfolding fl_pos [OF assms(1)] by (simp split: if_splits)

lemma fl_nonpos:
  assumes "x \<le> 0" and "fl x = Fin z"
  shows "z \<le> 0"
proof (cases "x = 0")
  case True
  with assms(2) show ?thesis by (simp add: fl_zero)
next
  case False
  with assms(1) have n: "x < 0" by simp
  have nz: "x \<noteq> 0" using n by simp
  have "(0::rat) \<le> of_int (fman x) * 2 powi fexp x"
    using fman_bounds(1) [OF nz] by simp
  moreover from assms(2) have "z = - (of_int (fman x) * 2 powi fexp x)"
    unfolding fl_neg [OF n] by (simp split: if_splits)
  ultimately show ?thesis by simp
qed

lemma fl_bound:
  assumes x: "\<bar>x\<bar> < 2 powi k" and k: "- 1021 \<le> k" "k \<le> 1023"
  shows "\<exists>z. fl x = Fin z \<and> \<bar>z\<bar> \<le> 2 powi k"
proof (cases "x = 0")
  case True
  then show ?thesis by (simp add: fl_zero)
next
  case False
  then have ax: "0 < \<bar>x\<bar>" by simp
  define v :: rat where "v = of_int (fman x) * 2 powi fexp x"
  from floor_log2_less [OF ax x] have "floor_log2 \<bar>x\<bar> < k" .
  then have e: "fexp x \<le> k - 53" using k(1) unfolding fexp_def by simp
  have m: "0 \<le> fman x" "fman x \<le> 2 ^ 53" using fman_bounds [OF False] by simp_all
  have v0: "0 \<le> v" unfolding v_def using m(1) by simp
  have "(of_int (fman x) :: rat) \<le> of_int (2 ^ 53)" using m(2) by (simp only: of_int_le_iff)
  then have "(of_int (fman x) :: rat) \<le> 2 powi 53" by simp
  then have "v \<le> 2 powi 53 * 2 powi fexp x"
    unfolding v_def by (rule mult_right_mono) simp
  also have "(2::rat) powi 53 * 2 powi fexp x \<le> 2 powi 53 * 2 powi (k - 53)"
    using e by (simp add: powi2_le_iff del: power_int_numeral)
  also have "(2::rat) powi 53 * 2 powi (k - 53) = 2 powi k"
    unfolding powi2_split [symmetric] by simp
  finally have vk: "v \<le> 2 powi k" .
  have "(2::rat) powi k < 2 powi 1024" using k(2) by (simp add: powi2_less_iff del: power_int_numeral)
  with vk have "\<not> 2 powi 1024 \<le> v" by simp
  then have "fl x = Fin (if 0 < x then v else - v)"
    using False fl_pos [of x] fl_neg [of x] unfolding v_def [symmetric] by (cases "0 < x") simp_all
  moreover have "\<bar>if 0 < x then v else - v\<bar> \<le> 2 powi k" using v0 vk by simp
  ultimately show ?thesis by blast
qed

lemma fl_three_tenths: "fl (3 / 10) = Fin (5404319552844595 / 18014398509481984)"
  by code_simp

lemma ratio_ge_iff:
  assumes "0 < p"
  shows "3 / 10 \<le> (of_int a / of_int p :: rat) \<longleftrightarrow> 3 * p \<le> 10 * a"
proof -
  have "3 / 10 \<le> (of_int a / of_int p :: rat) \<longleftrightarrow> (of_int (3 * p) :: rat) \<le> of_int (10 * a)"
    using assms by (simp add: field_simps)
  then show ?thesis by (simp only: of_int_le_iff)
qed

lemma float_ge_three_tenths:
  assumes p: "0 < p" "p < 2 ^ 51" and z: "fl (of_int a / of_int p) = Fin z"
  shows "float_ge (Fin z) (fl (3 / 10)) \<longleftrightarrow> 3 * p \<le> 10 * a"
proof -
  define x :: rat where "x = of_int a / of_int p"
  note z = z [folded x_def]
  note iff = ratio_ge_iff [OF p(1), of a, folded x_def]
  have ge: "float_ge (Fin z) (fl (3 / 10)) \<longleftrightarrow> 5404319552844595 / 18014398509481984 \<le> z"
    unfolding fl_three_tenths by simp
  consider (nonpos) "x \<le> 0" | (small) "0 < x" "x < 1 / 4" | (large) "1 / 2 \<le> x"
    | (mid) "1 / 4 \<le> x" "x < 1 / 2" by linarith
  then have "5404319552844595 / 18014398509481984 \<le> z \<longleftrightarrow> 3 / 10 \<le> x"
  proof cases
    case nonpos
    from fl_nonpos [OF nonpos z] have "z \<le> 0" .
    with nonpos show ?thesis by simp
  next
    case small
    have ax: "\<bar>x\<bar> = x" and nz: "x \<noteq> 0" using small(1) by simp_all
    have "x < 2 powi (- 2)" using small(2) by (simp add: power_int_minus)
    from floor_log2_less [OF small(1) this] have "fexp x \<le> - 55" unfolding fexp_def ax by simp
    then have e: "(2::rat) powi fexp x \<le> 2 powi (- 55)" by (simp only: powi2_le_iff)
    have "(of_int (fman x) :: rat) \<le> of_int (2 ^ 53)"
      using fman_bounds(2) [OF nz] by (simp only: of_int_le_iff)
    then have "of_int (fman x) * 2 powi fexp x \<le> (of_int (2 ^ 53) :: rat) * 2 powi fexp x"
      by (rule mult_right_mono) simp
    also have "\<dots> \<le> of_int (2 ^ 53) * 2 powi (- 55)" using e by (rule mult_left_mono) simp
    also have "\<dots> = 1 / 4" by (simp add: power_int_minus)
    finally have "z \<le> 1 / 4" unfolding fl_pos_Fin [OF small(1) z, symmetric] .
    with small(2) show ?thesis by simp
  next
    case large
    have x: "0 < x" using large by simp
    have ax: "\<bar>x\<bar> = x" and nz: "x \<noteq> 0" using x by simp_all
    have "2 powi (- 1) \<le> x" using large by (simp add: power_int_minus)
    then have j: "- 1 \<le> floor_log2 x" by (simp only: floor_log2_ge_iff [OF x])
    then have "- 53 \<le> fexp x" unfolding fexp_def ax by simp
    then have e: "(2::rat) powi (- 53) \<le> 2 powi fexp x" by (simp only: powi2_le_iff)
    have "- 1074 \<le> floor_log2 \<bar>x\<bar> - 52" using j unfolding ax by simp
    from fman_bounds(3) [OF nz this] have "(of_int (2 ^ 52) :: rat) \<le> of_int (fman x)"
      by (simp only: of_int_le_iff)
    then have "(of_int (2 ^ 52) :: rat) * 2 powi fexp x \<le> of_int (fman x) * 2 powi fexp x"
      by (rule mult_right_mono) simp
    moreover have "(of_int (2 ^ 52) :: rat) * 2 powi (- 53) \<le> of_int (2 ^ 52) * 2 powi fexp x"
      using e by (rule mult_left_mono) simp
    moreover have "(of_int (2 ^ 52) :: rat) * 2 powi (- 53) = 1 / 2" by (simp add: power_int_minus)
    ultimately have "1 / 2 \<le> z" unfolding fl_pos_Fin [OF x z, symmetric] by simp
    with large show ?thesis by simp
  next
    case mid
    have x: "0 < x" using mid(1) by simp
    have ax: "\<bar>x\<bar> = x" using x by simp
    have "2 powi (- 2) \<le> x" "x < 2 powi (- 2 + 1)" using mid by (simp_all add: power_int_minus)
    from floor_log2_unique [OF this] have e: "fexp x = - 54" unfolding fexp_def ax by simp
    have pw: "(2::rat) powi (- 54) = 1 / 18014398509481984" by (simp add: power_int_minus)
    define m where "m = round_half_even (x * 18014398509481984)"
    have m: "fman x = m" unfolding fman_def e ax pw m_def by simp
    have zm: "z = of_int m / 18014398509481984"
      unfolding fl_pos_Fin [OF x z] m e pw by simp
    have t: "5404319552844595 / 18014398509481984 \<le> z \<longleftrightarrow> 5404319552844595 \<le> m"
    proof -
      have "5404319552844595 / 18014398509481984 \<le> z \<longleftrightarrow> (of_int 5404319552844595 :: rat) \<le> of_int m"
        unfolding zm by simp
      then show ?thesis by (simp only: of_int_le_iff)
    qed
    show ?thesis
    proof (cases "3 / 10 \<le> x")
      case True
      then have "of_int 5404319552844595 - 1 / 2 < x * 18014398509481984" by simp
      from round_half_even_ge [OF this] have "5404319552844595 \<le> m" unfolding m_def .
      with True show ?thesis unfolding t by simp
    next
      case False
      then have "\<not> 3 * p \<le> 10 * a" unfolding iff .
      then have "10 * a + 1 \<le> 3 * p" by simp
      then have "(of_int (10 * a + 1) :: rat) \<le> of_int (3 * p)" by (simp only: of_int_le_iff)
      then have le: "10 * (of_int a :: rat) + 1 \<le> 3 * of_int p" by simp
      have pq: "(0::rat) < of_int p" using p(1) by simp
      have xp: "x * of_int p = of_int a" unfolding x_def using pq by simp
      have "(of_int p :: rat) < of_int (2 ^ 51)" using p(2) by (simp only: of_int_less_iff)
      then have p51: "(of_int p :: rat) < 2251799813685248" by simp
      have "(10 * (x * 18014398509481984) + 6) * of_int p
              = 18014398509481984 * (10 * of_int a) + 6 * of_int p"
        unfolding xp [symmetric] by (simp add: algebra_simps)
      also have "\<dots> \<le> 18014398509481984 * (3 * of_int p - 1) + 6 * of_int p"
        using le by simp
      also have "\<dots> < 54043195528445950 * of_int p" using p51 by simp
      finally have "10 * (x * 18014398509481984) + 6 < 54043195528445950"
        using pq by (simp only: mult_less_cancel_right_pos)
      then have "x * 18014398509481984 < of_int 5404319552844594 + 1 / 2" by simp
      from round_half_even_le [OF this] have "m \<le> 5404319552844594" unfolding m_def .
      with False show ?thesis unfolding t by simp
    qed
  qed
  then show ?thesis unfolding ge iff .
qed

lemma drop_percent_fires:
  assumes p: "0 < p" "p < 2 ^ 51" and c: "\<bar>c\<bar> < 2 ^ 63"
  shows "\<exists>r. drop_percent p c = Inr r \<and> (r \<noteq> None \<longleftrightarrow> 3 * p \<le> 10 * (p - c))"
proof -
  define x :: rat where "x = of_int (p - c) / of_int p"
  have pq: "(1::rat) \<le> of_int p" using p(1) by simp
  have "\<bar>p - c\<bar> < 2 ^ 64" using p c by simp
  then have "(of_int \<bar>p - c\<bar> :: rat) < of_int (2 ^ 64)" by (simp only: of_int_less_iff)
  then have a: "\<bar>of_int (p - c) :: rat\<bar> < 2 powi 64" by simp
  have "\<bar>x\<bar> = \<bar>of_int (p - c)\<bar> / of_int p" unfolding x_def using pq by simp
  also have "\<dots> \<le> \<bar>of_int (p - c)\<bar>" using pq by (simp add: divide_le_eq_1 pos_divide_le_eq mult_le_cancel_left1)
  finally have "\<bar>x\<bar> < 2 powi 64" using a by simp
  from fl_bound [OF this] obtain z where z: "fl x = Fin z" and zb: "\<bar>z\<bar> \<le> 2 powi 64" by auto
  have td: "truediv (p - c) p = Inr (Fin z)" using p(1) z unfolding x_def by (simp add: truediv_def)
  note ge = float_ge_three_tenths [OF p z [unfolded x_def]]
  have "\<bar>z * 100\<bar> = \<bar>z\<bar> * 100" by (simp add: abs_mult)
  also have "\<dots> \<le> 2 powi 64 * 100" using zb by simp
  also have "\<dots> < (2::rat) powi 71" by simp
  finally have "\<bar>z * 100\<bar> < 2 powi 71" .
  from fl_bound [OF this] obtain w where w: "fl (z * 100) = Fin w" by auto
  show ?thesis
  proof (cases "3 * p \<le> 10 * (p - c)")
    case True
    with ge have "float_ge (Fin z) (fl (3 / 10))" by simp
    then have "drop_percent p c = Inr (Some (trunc w))"
      unfolding drop_percent_def td by (simp add: bnd_def w)
    with True show ?thesis by simp
  next
    case False
    with ge have "\<not> float_ge (Fin z) (fl (3 / 10))" by simp
    then have "drop_percent p c = Inr None"
      unfolding drop_percent_def td by (simp add: bnd_def)
    with False show ?thesis by simp
  qed
qed

subsection \<open>The importer: the average check\<close>













end
